theory Spec2Isabelle
  imports Complex_Main "HOL-Library.Word" "HOL-Library.Multiset"
begin

unbundle bit_operations_syntax

section \<open>Basic types of seastore\<close>

text \<open>
  The fixed-width integers of \<^verbatim>\<open>seastore_types.h\<close> are words: additions and
  subtractions wrap around as the unsigned C++ types do. A \<^verbatim>\<open>sea_time_point\<close> is
  represented by its tick count; \<^verbatim>\<open>NULL_TIME\<close> is the epoch.
\<close>

type_synonym device_id_t = "8 word"
type_synonym segment_id_t = "32 word"
type_synonym device_segment_id_t = "32 word"
type_synonym segment_seq_t = "32 word"
type_synonym seastore_off_t = "32 word"  \<comment> \<open>int32_t: read with \<open>sint\<close>, compared with \<open><s\<close>\<close>
type_synonym extent_len_t = "32 word"
type_synonym reclaim_gen_t = "8 word"
type_synonym size_t = "64 word"
type_synonym sea_time_point = "64 word"  \<comment> \<open>the tick count, an int64_t\<close>

definition DEVICE_ID_MAX_VALID :: device_id_t where
  "DEVICE_ID_MAX_VALID = 255 - 7"

definition DEVICE_ID_MAX_VALID_SEGMENT :: device_id_t where
  "DEVICE_ID_MAX_VALID_SEGMENT = drop_bit 1 255"

definition DEVICE_SEGMENT_ID_BITS :: nat where
  "DEVICE_SEGMENT_ID_BITS = 24"

definition device_id :: "segment_id_t \<Rightarrow> device_id_t" where
  "device_id i = ucast (drop_bit DEVICE_SEGMENT_ID_BITS i)"

definition device_segment_id :: "segment_id_t \<Rightarrow> device_segment_id_t" where
  "device_segment_id i = i AND (push_bit DEVICE_SEGMENT_ID_BITS 1 - 1)"

definition make_internal :: "device_id_t \<Rightarrow> device_segment_id_t \<Rightarrow> segment_id_t" where
  "make_internal d_id s_id = s_id OR push_bit DEVICE_SEGMENT_ID_BITS (ucast d_id)"

definition NULL_SEG_ID :: segment_id_t where
  "NULL_SEG_ID =
     make_internal DEVICE_ID_MAX_VALID_SEGMENT (push_bit DEVICE_SEGMENT_ID_BITS 1 - 1)"

definition NULL_SEG_SEQ :: segment_seq_t where
  "NULL_SEG_SEQ = - 1"

definition NULL_TIME :: sea_time_point where
  "NULL_TIME = 0"

definition RECLAIM_GENERATIONS :: reclaim_gen_t where
  "RECLAIM_GENERATIONS = 3"

definition NULL_GENERATION :: reclaim_gen_t where
  "NULL_GENERATION = - 1"

datatype segment_state_t = EMPTY | OPEN | CLOSED

datatype segment_type_t = JOURNAL | OOL | NULL_SEG

datatype data_category_t = METADATA | DATA | NUM

text \<open>
  Every \<^verbatim>\<open>ceph_assert\<close> and \<^verbatim>\<open>ceph_abort\<close> of the source ends the process; the
  model returns \<open>Inl (Abort msg)\<close> with the failed condition. A plain \<^verbatim>\<open>assert\<close>
  is modelled as it behaves in a debug build, \<open>Inl (Assert msg)\<close>. Reading a
  \<^verbatim>\<open>std::vector\<close> out of range and dividing by zero are undefined in C++; the
  model stops with \<open>Inl (Undefined msg)\<close>. An error that a crimson errorator carries
  to the caller is \<open>Inl (Ct e)\<close>.
\<close>

datatype ct_error = input_output_error | enoent | enodata | invarg | erange

datatype error = Abort string | Assert string | Undefined string | Ct ct_error

definition ceph_assert :: "bool \<Rightarrow> string \<Rightarrow> (error + 'a) \<Rightarrow> error + 'a" where
  "ceph_assert c msg k = (if c then k else Inl (Abort msg))"

definition debug_assert :: "bool \<Rightarrow> string \<Rightarrow> (error + 'a) \<Rightarrow> error + 'a" where
  "debug_assert c msg k = (if c then k else Inl (Assert msg))"

section \<open>segment\_info\_t\<close>

text \<open>
  The fields that \<^verbatim>\<open>async_cleaner.cc\<close> reads and writes. The \<^verbatim>\<open>id\<close> field is only
  printed there and is left out.
\<close>

record segment_info_t =
  state :: segment_state_t
  seq :: segment_seq_t
  type :: segment_type_t
  category :: data_category_t
  generation :: reclaim_gen_t
  modify_time :: sea_time_point
  num_extents :: size_t
  written_to :: size_t

definition is_empty :: "segment_info_t \<Rightarrow> bool" where
  "is_empty info = (state info = EMPTY)"

definition is_open :: "segment_info_t \<Rightarrow> bool" where
  "is_open info = (state info = OPEN)"

definition is_closed :: "segment_info_t \<Rightarrow> bool" where
  "is_closed info = (state info = CLOSED)"

text \<open>
  Modelled from the spec: the default-constructed \<^verbatim>\<open>segment_info_t{}\<close>, whose
  member initializers are in \<^verbatim>\<open>async_cleaner.h\<close>. The initial state of every segment
  is EMPTY (in \<^verbatim>\<open>add_segment_manager\<close>: "by default the segments are empty"), and
  an EMPTY segment has the fields that \<^verbatim>\<open>set_empty\<close> assigns: "EMPTY implies
  seq=NULL, type=NULL, written\_to=0, num\_extents=0", with a NULL modify time.
\<close>

definition segment_info_init :: segment_info_t where
  "segment_info_init =
     \<lparr>state = EMPTY, seq = NULL_SEG_SEQ, type = NULL_SEG, category = NUM,
      generation = NULL_GENERATION, modify_time = NULL_TIME, num_extents = 0,
      written_to = 0\<rparr>"

definition set_open ::
  "segment_seq_t \<Rightarrow> segment_type_t \<Rightarrow> data_category_t \<Rightarrow> reclaim_gen_t \<Rightarrow>
   segment_info_t \<Rightarrow> error + segment_info_t" where
  "set_open seq' type' category' generation' info =
     ceph_assert (seq' \<noteq> NULL_SEG_SEQ) ''_seq != NULL_SEG_SEQ''
    (ceph_assert (type' \<noteq> NULL_SEG) ''_type != segment_type_t::NULL_SEG''
    (ceph_assert (category' \<noteq> NUM) ''_category != data_category_t::NUM''
    (ceph_assert (generation' < RECLAIM_GENERATIONS) ''_generation < RECLAIM_GENERATIONS''
    (Inr (info\<lparr>state := OPEN, seq := seq', type := type', category := category',
               generation := generation', written_to := 0\<rparr>)))))"

definition set_empty :: "segment_info_t \<Rightarrow> segment_info_t" where
  "set_empty info =
     info\<lparr>state := EMPTY, seq := NULL_SEG_SEQ, type := NULL_SEG, category := NUM,
          generation := NULL_GENERATION, modify_time := NULL_TIME, num_extents := 0,
          written_to := 0\<rparr>"

definition set_closed :: "segment_info_t \<Rightarrow> segment_info_t" where
  "set_closed info = info\<lparr>state := CLOSED\<rparr>"

definition info_init_closed ::
  "segment_seq_t \<Rightarrow> segment_type_t \<Rightarrow> data_category_t \<Rightarrow> reclaim_gen_t \<Rightarrow> size_t \<Rightarrow>
   segment_info_t \<Rightarrow> error + segment_info_t" where
  "info_init_closed seq' type' category' generation' seg_size info =
     ceph_assert (seq' \<noteq> NULL_SEG_SEQ) ''_seq != NULL_SEG_SEQ''
    (ceph_assert (type' \<noteq> NULL_SEG) ''_type != segment_type_t::NULL_SEG''
    (ceph_assert (category' \<noteq> NUM) ''_category != data_category_t::NUM''
    (ceph_assert (generation' < RECLAIM_GENERATIONS) ''_generation < RECLAIM_GENERATIONS''
    (Inr (info\<lparr>state := CLOSED, seq := seq', type := type', category := category',
               generation := generation', written_to := seg_size\<rparr>)))))"


definition and_then :: "(error + 'a) \<Rightarrow> ('a \<Rightarrow> error + 'b) \<Rightarrow> error + 'b" where
  "and_then r k = (case r of Inl e \<Rightarrow> Inl e | Inr x \<Rightarrow> k x)"

section \<open>segment\_map\_t and segments\_info\_t\<close>

text \<open>
  \<^verbatim>\<open>segments_info_t\<close> owns a \<^verbatim>\<open>segment_map_t<segment_info_t>\<close>, whose two members
  \<^verbatim>\<open>device_to_segments\<close> (a vector of vectors, indexed by device id and then by the
  segment id within the device) and \<^verbatim>\<open>total_segments\<close> are kept here as fields of
  the one record. \<^verbatim>\<open>modify_times\<close> is a \<^verbatim>\<open>std::multiset\<close>.
\<close>

record segments_info_t =
  device_to_segments :: "segment_info_t list list"
  total_segments :: size_t
  segment_size :: size_t
  journal_segment_id :: segment_id_t
  num_in_journal_open :: size_t
  num_type_journal :: size_t
  num_type_ool :: size_t
  num_open :: size_t
  num_empty :: size_t
  num_closed :: size_t
  count_open_journal :: size_t
  count_open_ool :: size_t
  count_release_journal :: size_t
  count_release_ool :: size_t
  count_close_journal :: size_t
  count_close_ool :: size_t
  total_bytes :: size_t
  avail_bytes_in_open :: size_t
  modify_times :: "sea_time_point multiset"

text \<open>\<^verbatim>\<open>segment_map_t::contains\<close>.\<close>

definition contains :: "segments_info_t \<Rightarrow> segment_id_t \<Rightarrow> bool" where
  "contains s i =
     (unat (device_id i) < length (device_to_segments s) \<and>
      unat (device_segment_id i) < length (device_to_segments s ! unat (device_id i)))"

definition seg_at :: "segments_info_t \<Rightarrow> segment_id_t \<Rightarrow> segment_info_t" where
  "seg_at s i = device_to_segments s ! unat (device_id i) ! unat (device_segment_id i)"

text \<open>
  \<^verbatim>\<open>segment_map_t::operator[]\<close>: the outer vector is read unchecked, the inner index
  is guarded by an \<^verbatim>\<open>assert\<close>. The continuation receives the referenced entry.
\<close>

definition with_segment ::
  "segments_info_t \<Rightarrow> segment_id_t \<Rightarrow> (segment_info_t \<Rightarrow> error + 'a) \<Rightarrow> error + 'a" where
  "with_segment s i k =
     (if \<not> unat (device_id i) < length (device_to_segments s)
      then Inl (Undefined ''device_to_segments[id.device_id()]'')
      else debug_assert
             (unat (device_segment_id i) < length (device_to_segments s ! unat (device_id i)))
             ''id.device_segment_id() < device_to_segments[id.device_id()].size()''
             (k (seg_at s i)))"

text \<open>Assignment through the reference returned by \<^verbatim>\<open>operator[]\<close>.\<close>

definition seg_put :: "segment_id_t \<Rightarrow> segment_info_t \<Rightarrow> segments_info_t \<Rightarrow> segments_info_t" where
  "seg_put i info s =
     s\<lparr>device_to_segments :=
         (device_to_segments s)
           [unat (device_id i) :=
              (device_to_segments s ! unat (device_id i))[unat (device_segment_id i) := info]]\<rparr>"

text \<open>
  \<^verbatim>\<open>segments_info_t::reset\<close>; \<^verbatim>\<open>segment_map_t::clear\<close> leaves
  \<^verbatim>\<open>DEVICE_ID_MAX_VALID\<close> empty device vectors.
\<close>

definition reset :: segments_info_t where
  "reset =
     \<lparr>device_to_segments = replicate (unat DEVICE_ID_MAX_VALID) [],
      total_segments = 0, segment_size = 0, journal_segment_id = NULL_SEG_ID,
      num_in_journal_open = 0, num_type_journal = 0, num_type_ool = 0,
      num_open = 0, num_empty = 0, num_closed = 0,
      count_open_journal = 0, count_open_ool = 0,
      count_release_journal = 0, count_release_ool = 0,
      count_close_journal = 0, count_close_ool = 0,
      total_bytes = 0, avail_bytes_in_open = 0, modify_times = {#}\<rparr>"

text \<open>
  \<^verbatim>\<open>segment_map_t::add_device\<close>. The guard admits \<^verbatim>\<open>device == DEVICE_ID_MAX_VALID\<close>,
  one past the last device vector.
\<close>

definition add_device ::
  "device_id_t \<Rightarrow> size_t \<Rightarrow> segment_info_t \<Rightarrow> segments_info_t \<Rightarrow> error + segments_info_t" where
  "add_device device nsegments init s =
     ceph_assert (device \<le> DEVICE_ID_MAX_VALID) ''device <= DEVICE_ID_MAX_VALID''
    (if \<not> unat device < length (device_to_segments s)
     then Inl (Undefined ''device_to_segments[device]'')
     else
     ceph_assert (length (device_to_segments s ! unat device) = 0)
       ''device_to_segments[device].size() == 0''
    (ceph_assert (0 < nsegments) ''segments > 0''
    (Inr (s\<lparr>device_to_segments :=
              (device_to_segments s)[unat device := replicate (unat nsegments) init],
            total_segments := total_segments s + nsegments\<rparr>))))"

text \<open>
  \<^verbatim>\<open>segments_info_t::add_segment_manager\<close>. The arguments are what the segment
  manager reports: its device id, \<^verbatim>\<open>get_segment_size()\<close> (a signed offset that is
  cast to \<^verbatim>\<open>std::size_t\<close>), \<^verbatim>\<open>get_num_segments()\<close> and \<^verbatim>\<open>get_size()\<close>.
\<close>

definition add_segment_manager ::
  "device_id_t \<Rightarrow> seastore_off_t \<Rightarrow> device_segment_id_t \<Rightarrow> size_t \<Rightarrow>
   segments_info_t \<Rightarrow> error + segments_info_t" where
  "add_segment_manager d_id ssize nsegments sm_size s =
     ceph_assert (0 <s ssize) ''ssize > 0''
    (ceph_assert (0 < nsegments) ''nsegments > 0''
    (ceph_assert (0 < sm_size) ''sm_size > 0''
    (and_then (add_device d_id (ucast nsegments) segment_info_init s) (\<lambda>s1.
     and_then
       (if segment_size s1 = 0
        then ceph_assert (0 <s ssize) ''ssize > 0'' (Inr (s1\<lparr>segment_size := scast ssize\<rparr>))
        else ceph_assert (segment_size s1 = scast ssize)
               ''segment_size == (std::size_t)ssize'' (Inr s1)) (\<lambda>s2.
     Inr (s2\<lparr>num_empty := num_empty s2 + ucast nsegments,
            total_bytes := total_bytes s2 + sm_size\<rparr>))))))"

text \<open>
  \<^verbatim>\<open>segments_info_t::init_closed\<close>. \<^verbatim>\<open>get_submitted_journal_head\<close> is declared in
  \<^verbatim>\<open>async_cleaner.h\<close>; the outcome of its comparison with \<^verbatim>\<open>JOURNAL_SEQ_NULL\<close> is the
  parameter \<open>head_is_null\<close>.
\<close>

definition init_closed ::
  "(segments_info_t \<Rightarrow> bool) \<Rightarrow> segment_id_t \<Rightarrow> segment_seq_t \<Rightarrow> segment_type_t \<Rightarrow>
   data_category_t \<Rightarrow> reclaim_gen_t \<Rightarrow> segments_info_t \<Rightarrow> error + segments_info_t" where
  "init_closed head_is_null segment seq' type' category' generation' s =
     with_segment s segment (\<lambda>segment_info.
     ceph_assert (is_empty segment_info) ''segment_info.is_empty()''
    (ceph_assert (0 < num_empty s) ''num_empty > 0''
    (let s1 = s\<lparr>num_empty := num_empty s - 1, num_closed := num_closed s + 1\<rparr> in
     and_then
       (if type' = JOURNAL
        then ceph_assert (head_is_null s1)
               ''get_submitted_journal_head() == JOURNAL_SEQ_NULL''
               (Inr (s1\<lparr>num_type_journal := num_type_journal s1 + 1\<rparr>))
        else Inr (s1\<lparr>num_type_ool := num_type_ool s1 + 1\<rparr>)) (\<lambda>s2.
     and_then
       (if modify_time segment_info \<noteq> NULL_TIME
        then Inr (s2\<lparr>modify_times := add_mset (modify_time segment_info) (modify_times s2)\<rparr>)
        else ceph_assert (num_extents segment_info = 0)
               ''segment_info.num_extents == 0'' (Inr s2)) (\<lambda>s3.
     and_then
       (info_init_closed seq' type' category' generation' (segment_size s3) segment_info)
       (\<lambda>info'. Inr (seg_put segment info' s3)))))))"

text \<open>\<^verbatim>\<open>segments_info_t::mark_open\<close>.\<close>

definition mark_open ::
  "segment_id_t \<Rightarrow> segment_seq_t \<Rightarrow> segment_type_t \<Rightarrow> data_category_t \<Rightarrow> reclaim_gen_t \<Rightarrow>
   segments_info_t \<Rightarrow> error + segments_info_t" where
  "mark_open segment seq' type' category' generation' s =
     with_segment s segment (\<lambda>segment_info.
     ceph_assert (is_empty segment_info) ''segment_info.is_empty()''
    (ceph_assert (0 < num_empty s) ''num_empty > 0''
    (let s1 = s\<lparr>num_empty := num_empty s - 1, num_open := num_open s + 1\<rparr> in
     and_then
       (if type' = JOURNAL
        then
          and_then
            (if journal_segment_id s1 \<noteq> NULL_SEG_ID
             then with_segment s1 (journal_segment_id s1) (\<lambda>last_journal_segment.
                  ceph_assert (is_closed last_journal_segment)
                    ''last_journal_segment.is_closed()''
                 (ceph_assert (type last_journal_segment = JOURNAL)
                    ''last_journal_segment.type == segment_type_t::JOURNAL''
                 (ceph_assert (seq last_journal_segment + 1 = seq')
                    ''last_journal_segment.seq + 1 == seq''
                 (Inr s1))))
             else Inr s1) (\<lambda>s1.
          Inr (s1\<lparr>journal_segment_id := segment,
                 num_in_journal_open := num_in_journal_open s1 + 1,
                 num_type_journal := num_type_journal s1 + 1,
                 count_open_journal := count_open_journal s1 + 1\<rparr>))
        else Inr (s1\<lparr>num_type_ool := num_type_ool s1 + 1,
                    count_open_ool := count_open_ool s1 + 1\<rparr>)) (\<lambda>s2.
     let s3 = s2\<lparr>avail_bytes_in_open := avail_bytes_in_open s2 + segment_size s2\<rparr> in
     and_then (set_open seq' type' category' generation' segment_info)
       (\<lambda>info'. Inr (seg_put segment info' s3))))))"

text \<open>\<^verbatim>\<open>segments_info_t::mark_empty\<close>.\<close>

definition mark_empty :: "segment_id_t \<Rightarrow> segments_info_t \<Rightarrow> error + segments_info_t" where
  "mark_empty segment s =
     with_segment s segment (\<lambda>segment_info.
     ceph_assert (is_closed segment_info) ''segment_info.is_closed()''
    (debug_assert (type segment_info \<noteq> NULL_SEG) ''type != segment_type_t::NULL_SEG''
    (ceph_assert (0 < num_closed s) ''num_closed > 0''
    (let s1 = s\<lparr>num_closed := num_closed s - 1, num_empty := num_empty s + 1\<rparr> in
     and_then
       (if type segment_info = JOURNAL
        then ceph_assert (0 < num_type_journal s1) ''num_type_journal > 0''
               (Inr (s1\<lparr>num_type_journal := num_type_journal s1 - 1,
                       count_release_journal := count_release_journal s1 + 1\<rparr>))
        else ceph_assert (0 < num_type_ool s1) ''num_type_ool > 0''
               (Inr (s1\<lparr>num_type_ool := num_type_ool s1 - 1,
                       count_release_ool := count_release_ool s1 + 1\<rparr>))) (\<lambda>s2.
     and_then
       (if modify_time segment_info \<noteq> NULL_TIME
        then ceph_assert (modify_time segment_info \<in># modify_times s2)
               ''to_erase != modify_times.end()''
               (Inr (s2\<lparr>modify_times := modify_times s2 - {#modify_time segment_info#}\<rparr>))
        else ceph_assert (num_extents segment_info = 0)
               ''segment_info.num_extents == 0'' (Inr s2)) (\<lambda>s3.
     Inr (seg_put segment (set_empty segment_info) s3)))))))"

text \<open>\<^verbatim>\<open>segments_info_t::mark_closed\<close>.\<close>

definition mark_closed :: "segment_id_t \<Rightarrow> segments_info_t \<Rightarrow> error + segments_info_t" where
  "mark_closed segment s =
     with_segment s segment (\<lambda>segment_info.
     ceph_assert (is_open segment_info) ''segment_info.is_open()''
    (ceph_assert (0 < num_open s) ''num_open > 0''
    (let s1 = s\<lparr>num_open := num_open s - 1, num_closed := num_closed s + 1\<rparr> in
     and_then
       (if type segment_info = JOURNAL
        then ceph_assert (0 < num_in_journal_open s1) ''num_in_journal_open > 0''
               (Inr (s1\<lparr>num_in_journal_open := num_in_journal_open s1 - 1,
                       count_close_journal := count_close_journal s1 + 1\<rparr>))
        else Inr (s1\<lparr>count_close_ool := count_close_ool s1 + 1\<rparr>)) (\<lambda>s2.
     ceph_assert (written_to segment_info \<le> segment_size s2)
       ''get_segment_size() >= segment_info.written_to''
    (let seg_avail_bytes = segment_size s2 - written_to segment_info in
     ceph_assert (seg_avail_bytes \<le> avail_bytes_in_open s2)
       ''avail_bytes_in_open >= seg_avail_bytes''
    (let s3 = s2\<lparr>avail_bytes_in_open := avail_bytes_in_open s2 - seg_avail_bytes\<rparr> in
     and_then
       (if modify_time segment_info \<noteq> NULL_TIME
        then Inr (s3\<lparr>modify_times := add_mset (modify_time segment_info) (modify_times s3)\<rparr>)
        else ceph_assert (num_extents segment_info = 0)
               ''segment_info.num_extents == 0'' (Inr s3)) (\<lambda>s4.
     Inr (seg_put segment (set_closed segment_info) s4))))))))"


text \<open>
  \<^verbatim>\<open>get_average_time\<close> of \<^verbatim>\<open>seastore_types.h\<close>. The counts are \<^verbatim>\<open>int64_t\<close> and the
  sizes \<^verbatim>\<open>std::size_t\<close>, so the quotients and products are computed unsigned.
\<close>

definition get_average_time ::
  "sea_time_point \<Rightarrow> size_t \<Rightarrow> sea_time_point \<Rightarrow> size_t \<Rightarrow> error + sea_time_point" where
  "get_average_time t1 n1 t2 n2 =
     debug_assert (t1 \<noteq> NULL_TIME) ''t1 != NULL_TIME''
    (debug_assert (t2 \<noteq> NULL_TIME) ''t2 != NULL_TIME''
    (let new_size = n1 + n2 in
     debug_assert (0 < new_size) ''new_size > 0''
    (Inr (t1 div new_size * n1 + t2 div new_size * n2))))"

text \<open>
  Modelled from the spec: \<^verbatim>\<open>update_modify_time\<close>, declared in \<^verbatim>\<open>async_cleaner.h\<close>.
  The spec lists it among the operations of the segment directory and says that
  \<^verbatim>\<open>modify_time\<close> is the average mtime of the extents written into the segment and
  that it is non-NULL iff \<^verbatim>\<open>num_extents > 0\<close>: a first batch of extents sets both
  fields, a later batch averages the times weighted by the extent counts.
\<close>

definition update_modify_time ::
  "segment_id_t \<Rightarrow> sea_time_point \<Rightarrow> size_t \<Rightarrow> segments_info_t \<Rightarrow> error + segments_info_t" where
  "update_modify_time segment tp num s =
     (if num = 0 then Inr s
      else with_segment s segment (\<lambda>segment_info.
        and_then
          (if modify_time segment_info = NULL_TIME then Inr tp
           else get_average_time (modify_time segment_info) (num_extents segment_info) tp num)
          (\<lambda>t. Inr (seg_put segment
                  (segment_info\<lparr>modify_time := t,
                                 num_extents := num_extents segment_info + num\<rparr>) s))))"

section \<open>Physical addresses\<close>

type_synonym paddr_t = "64 word"

datatype paddr_types_t = SEGMENT | RANDOM_BLOCK | RESERVED

definition device_id_to_paddr_type :: "device_id_t \<Rightarrow> paddr_types_t" where
  "device_id_to_paddr_type i =
     (if i > DEVICE_ID_MAX_VALID then RESERVED
      else if i AND 0x80 = 0 then SEGMENT
      else RANDOM_BLOCK)"

definition get_device_id :: "paddr_t \<Rightarrow> device_id_t" where
  "get_device_id p = ucast (drop_bit 56 p)"

definition get_addr_type :: "paddr_t \<Rightarrow> paddr_types_t" where
  "get_addr_type p = device_id_to_paddr_type (get_device_id p)"

definition get_segment_id :: "paddr_t \<Rightarrow> segment_id_t" where
  "get_segment_id p = ucast (drop_bit 32 p)"

definition get_segment_off :: "paddr_t \<Rightarrow> seastore_off_t" where
  "get_segment_off p = ucast (p AND (push_bit 32 1 - 1))"

definition make_seg_paddr :: "segment_id_t \<Rightarrow> seastore_off_t \<Rightarrow> paddr_t" where
  "make_seg_paddr seg off = push_bit 32 (ucast seg) OR ucast off"

text \<open>\<^verbatim>\<open>paddr_t::as_seg_paddr\<close> asserts the address type.\<close>

definition as_seg_paddr :: "paddr_t \<Rightarrow> (paddr_t \<Rightarrow> error + 'a) \<Rightarrow> error + 'a" where
  "as_seg_paddr p k =
     debug_assert (get_addr_type p = SEGMENT) ''get_addr_type() == paddr_types_t::SEGMENT'' (k p)"

text \<open>\<^verbatim>\<open>segments_info_t::update_written_to\<close>.\<close>

definition update_written_to ::
  "segment_type_t \<Rightarrow> paddr_t \<Rightarrow> segments_info_t \<Rightarrow> error + segments_info_t" where
  "update_written_to type' offset s =
     as_seg_paddr offset (\<lambda>saddr.
     with_segment s (get_segment_id saddr) (\<lambda>segment_info.
     if \<not> is_open segment_info then Inl (Abort ''segment is not open, not updating'')
     else
     let new_written_to = (scast (get_segment_off saddr) :: size_t) in
     ceph_assert (new_written_to \<le> segment_size s) ''new_written_to <= get_segment_size()''
    (if written_to segment_info > new_written_to
     then Inl (Abort ''written_to should not decrease!'')
     else
     ceph_assert (type' = type segment_info) ''type == segment_info.type''
    (let avail_deduction = new_written_to - written_to segment_info in
     ceph_assert (avail_deduction \<le> avail_bytes_in_open s)
       ''avail_bytes_in_open >= avail_deduction''
    (Inr (seg_put (get_segment_id saddr) (segment_info\<lparr>written_to := new_written_to\<rparr>)
           (s\<lparr>avail_bytes_in_open := avail_bytes_in_open s - avail_deduction\<rparr>)))))))"

text \<open>
  Modelled from the spec: the aggregate query \<^verbatim>\<open>get_available_bytes\<close>, declared in
  \<^verbatim>\<open>async_cleaner.h\<close>: "available\_bytes = empty * segment\_size + avail\_in\_open".
\<close>

definition get_available_bytes :: "segments_info_t \<Rightarrow> size_t" where
  "get_available_bytes s = num_empty s * segment_size s + avail_bytes_in_open s"

subsection \<open>The quantities the aggregate counters stand for\<close>

definition all_segments :: "segments_info_t \<Rightarrow> segment_info_t list" where
  "all_segments s = concat (device_to_segments s)"

definition open_avail :: "size_t \<Rightarrow> segment_info_t \<Rightarrow> size_t" where
  "open_avail ssize info = (if is_open info then ssize - written_to info else 0)"

text \<open>The sum over all OPEN segments of \<open>segment_size - written_to\<close>.\<close>

definition sum_avail_in_open :: "segments_info_t \<Rightarrow> size_t" where
  "sum_avail_in_open s = sum_list (map (open_avail (segment_size s)) (all_segments s))"

definition count_state :: "segment_state_t \<Rightarrow> segments_info_t \<Rightarrow> nat" where
  "count_state st s = length (filter (\<lambda>info. state info = st) (all_segments s))"

text \<open>
  The same sum over the natural numbers, and the counters read as numbers of segments:
  each aggregate is the \<^verbatim>\<open>std::size_t\<close> value of the quantity it stands for.
\<close>

definition sum_avail_in_open_nat :: "segments_info_t \<Rightarrow> nat" where
  "sum_avail_in_open_nat s =
     sum_list (map (\<lambda>info. if is_open info
                           then unat (segment_size s) - unat (written_to info) else 0)
                 (all_segments s))"

definition counters_exact :: "segments_info_t \<Rightarrow> bool" where
  "counters_exact s =
     (total_segments s = of_nat (length (all_segments s)) \<and>
      num_empty s = of_nat (count_state EMPTY s) \<and>
      num_open s = of_nat (count_state OPEN s) \<and>
      num_closed s = of_nat (count_state CLOSED s) \<and>
      avail_bytes_in_open s = of_nat (sum_avail_in_open_nat s))"

definition counts_ok :: "segments_info_t \<Rightarrow> bool" where
  "counts_ok s =
     (total_segments s = of_nat (length (all_segments s)) \<and>
      num_empty s = of_nat (count_state EMPTY s) \<and>
      num_open s = of_nat (count_state OPEN s) \<and>
      num_closed s = of_nat (count_state CLOSED s))"

text \<open>No segment is written beyond the segment size.\<close>

definition written_ok :: "segments_info_t \<Rightarrow> bool" where
  "written_ok s = (\<forall>info \<in> set (all_segments s). written_to info \<le> segment_size s)"

definition aggregates_ok :: "segments_info_t \<Rightarrow> bool" where
  "aggregates_ok s =
     (num_empty s + num_open s + num_closed s = total_segments s \<and>
      avail_bytes_in_open s = sum_avail_in_open s \<and>
      get_available_bytes s = num_empty s * segment_size s + sum_avail_in_open s)"

text \<open>
  The states of the directory: \<^verbatim>\<open>reset\<close>, then any sequence of calls that return.
\<close>

inductive reachable :: "segments_info_t \<Rightarrow> bool" where
  reach_reset: "reachable reset"
| reach_add_segment_manager:
    "reachable s \<Longrightarrow> add_segment_manager d_id ssize nsegments sm_size s = Inr s' \<Longrightarrow>
     reachable s'"
| reach_init_closed:
    "reachable s \<Longrightarrow> init_closed head_is_null segment sq ty cat gen s = Inr s' \<Longrightarrow>
     reachable s'"
| reach_mark_open:
    "reachable s \<Longrightarrow> mark_open segment sq ty cat gen s = Inr s' \<Longrightarrow> reachable s'"
| reach_mark_closed:
    "reachable s \<Longrightarrow> mark_closed segment s = Inr s' \<Longrightarrow> reachable s'"
| reach_mark_empty:
    "reachable s \<Longrightarrow> mark_empty segment s = Inr s' \<Longrightarrow> reachable s'"
| reach_update_written_to:
    "reachable s \<Longrightarrow> update_written_to ty offset s = Inr s' \<Longrightarrow> reachable s'"
| reach_update_modify_time:
    "reachable s \<Longrightarrow> update_modify_time segment tp num s = Inr s' \<Longrightarrow> reachable s'"

text \<open>
  All devices share one segment size, fixed when the first one is added: while it is
  still 0 there is no segment.
\<close>

definition size_ok :: "segments_info_t \<Rightarrow> bool" where
  "size_ok s = (segment_size s = 0 \<longrightarrow> all_segments s = [])"

subsection \<open>Journal segments\<close>

definition open_journal :: "segment_info_t \<Rightarrow> bool" where
  "open_journal info = (is_open info \<and> type info = JOURNAL)"

text \<open>The number of journal segments in the OPEN state.\<close>

definition num_open_journal :: "segments_info_t \<Rightarrow> nat" where
  "num_open_journal s = length (filter open_journal (all_segments s))"



section \<open>SpaceTracker\<close>

subsection \<open>SpaceTrackerDetailed::SegmentMap\<close>

text \<open>
  A segment's bitmap of live blocks and its live-byte counter \<^verbatim>\<open>used\<close>, an
  \<^verbatim>\<open>int64_t\<close>.
\<close>

record SegmentMap =
  used :: "64 word"
  bitmap :: "bool list"

text \<open>
  Modelled from the spec: \<^verbatim>\<open>SegmentMap::update_usage\<close>, declared in
  \<^verbatim>\<open>async_cleaner.h\<close>. The detailed tracker keeps "a bitmap plus a counter" per
  segment; \<^verbatim>\<open>allocate\<close> and \<^verbatim>\<open>release\<close> return the new usage, which is the counter
  after the signed length has been added.
\<close>

definition update_usage :: "64 word \<Rightarrow> SegmentMap \<Rightarrow> 64 word \<times> SegmentMap" where
  "update_usage delta m = (used m + delta, m\<lparr>used := used m + delta\<rparr>)"

text \<open>
  The loop of \<^verbatim>\<open>SegmentMap::allocate\<close> over the blocks \<open>b \<le> i < e\<close>: a block found
  set raises the local flag \<^verbatim>\<open>error\<close> (and is logged), and every block is set. The
  flag is returned with the bitmap, as the record of what was logged.
\<close>

fun allocate_blocks :: "nat list \<Rightarrow> bool \<Rightarrow> bool list \<Rightarrow> error + (bool \<times> bool list)" where
  "allocate_blocks [] err bm = Inr (err, bm)"
| "allocate_blocks (i # is) err bm =
     (if \<not> i < length bm then Inl (Undefined ''bitmap[i]'')
      else allocate_blocks is (err \<or> bm ! i) (bm[i := True]))"

text \<open>
  \<^verbatim>\<open>SpaceTrackerDetailed::SegmentMap::allocate\<close>. The offset is an \<^verbatim>\<open>int32_t\<close> and the
  length and block size are \<^verbatim>\<open>uint32_t\<close>, so \<open>%\<close>, \<open>/\<close> and \<open>+\<close> are computed in
  \<^verbatim>\<open>uint32_t\<close>. The result is the new usage, the \<^verbatim>\<open>error\<close> flag and the new map.
  The \<^verbatim>\<open>segment\<close> argument is only logged.
\<close>

definition allocate ::
  "device_segment_id_t \<Rightarrow> seastore_off_t \<Rightarrow> extent_len_t \<Rightarrow> extent_len_t \<Rightarrow> SegmentMap \<Rightarrow>
   error + (64 word \<times> bool \<times> SegmentMap)" where
  "allocate segment offset len block_size m =
     (if block_size = 0 then Inl (Undefined ''offset % block_size'')
      else
      debug_assert (offset mod block_size = 0) ''offset % block_size == 0''
     (debug_assert (len mod block_size = 0) ''len % block_size == 0''
     (let b = offset div block_size;
          e = (offset + len) div block_size in
      and_then (allocate_blocks [unat b ..< unat e] False (bitmap m)) (\<lambda>(err, bm).
      let (ret, m') = update_usage (ucast len) (m\<lparr>bitmap := bm\<rparr>) in
      Inr (ret, err, m')))))"

fun release_blocks :: "nat list \<Rightarrow> bool \<Rightarrow> bool list \<Rightarrow> error + (bool \<times> bool list)" where
  "release_blocks [] err bm = Inr (err, bm)"
| "release_blocks (i # is) err bm =
     (if \<not> i < length bm then Inl (Undefined ''bitmap[i]'')
      else release_blocks is (err \<or> \<not> bm ! i) (bm[i := False]))"

text \<open>
  \<^verbatim>\<open>SpaceTrackerDetailed::SegmentMap::release\<close>; the usage changes by
  \<^verbatim>\<open>-(int64_t)len\<close>.
\<close>

definition release ::
  "device_segment_id_t \<Rightarrow> seastore_off_t \<Rightarrow> extent_len_t \<Rightarrow> extent_len_t \<Rightarrow> SegmentMap \<Rightarrow>
   error + (64 word \<times> bool \<times> SegmentMap)" where
  "release segment offset len block_size m =
     (if block_size = 0 then Inl (Undefined ''offset % block_size'')
      else
      debug_assert (offset mod block_size = 0) ''offset % block_size == 0''
     (debug_assert (len mod block_size = 0) ''len % block_size == 0''
     (let b = offset div block_size;
          e = (offset + len) div block_size in
      and_then (release_blocks [unat b ..< unat e] False (bitmap m)) (\<lambda>(err, bm).
      let (ret, m') = update_usage (- ucast len) (m\<lparr>bitmap := bm\<rparr>) in
      Inr (ret, err, m')))))"

text \<open>\<^verbatim>\<open>SegmentMap::get_usage\<close> returns the counter.\<close>

definition map_get_usage :: "SegmentMap \<Rightarrow> 64 word" where
  "map_get_usage m = used m"

text \<open>The blocks of the range \<open>[offset, offset + len)\<close>.\<close>

definition block_range :: "seastore_off_t \<Rightarrow> extent_len_t \<Rightarrow> extent_len_t \<Rightarrow> nat list" where
  "block_range offset len block_size =
     [unat (offset div block_size) ..< unat ((offset + len) div block_size)]"
subsection \<open>The two trackers\<close>

text \<open>
  \<^verbatim>\<open>segment_map_t<T>\<close> for the trackers' element types: membership, the entry of a
  segment, \<^verbatim>\<open>operator[]\<close> with its \<^verbatim>\<open>assert\<close>, and assignment through the reference.
\<close>

definition sm_contains :: "'a list list \<Rightarrow> segment_id_t \<Rightarrow> bool" where
  "sm_contains xss i =
     (unat (device_id i) < length xss \<and>
      unat (device_segment_id i) < length (xss ! unat (device_id i)))"

definition sm_at :: "'a list list \<Rightarrow> segment_id_t \<Rightarrow> 'a" where
  "sm_at xss i = xss ! unat (device_id i) ! unat (device_segment_id i)"

definition sm_put :: "segment_id_t \<Rightarrow> 'a \<Rightarrow> 'a list list \<Rightarrow> 'a list list" where
  "sm_put i v xss =
     xss[unat (device_id i) := (xss ! unat (device_id i))[unat (device_segment_id i) := v]]"

definition with_entry ::
  "'a list list \<Rightarrow> segment_id_t \<Rightarrow> ('a \<Rightarrow> error + 'b) \<Rightarrow> error + 'b" where
  "with_entry xss i k =
     (if \<not> unat (device_id i) < length xss
      then Inl (Undefined ''device_to_segments[id.device_id()]'')
      else debug_assert (unat (device_segment_id i) < length (xss ! unat (device_id i)))
             ''id.device_segment_id() < device_to_segments[id.device_id()].size()''
             (k (sm_at xss i)))"

text \<open>
  Modelled from the spec: the classes \<^verbatim>\<open>SpaceTrackerSimple\<close> and
  \<^verbatim>\<open>SpaceTrackerDetailed\<close> of \<^verbatim>\<open>async_cleaner.h\<close>. "SpaceTracker maps a segment to
  either a single live-byte counter (coarse mode) or a bitmap of segment\_size /
  block\_size bits plus a counter (detailed mode)"; both offer
  \<^verbatim>\<open>allocate(segment, offset, len)\<close> and \<^verbatim>\<open>release(segment, offset, len)\<close>, which
  return the new usage, and \<^verbatim>\<open>get_usage(segment)\<close>. The coarse tracker adds or
  subtracts the length, and a counter that falls below zero is an invariant violation.
  The detailed tracker hands the call to the \<^verbatim>\<open>SegmentMap\<close> of the segment, with the
  block size of the segment's device.
\<close>

datatype space_tracker =
  SpaceTrackerSimple "64 word list list"
| SpaceTrackerDetailed "SegmentMap list list" "extent_len_t list"

definition simple_update_usage ::
  "segment_id_t \<Rightarrow> 64 word \<Rightarrow> 64 word list list \<Rightarrow> error + (64 word \<times> space_tracker)" where
  "simple_update_usage segment delta live_bytes_by_segment =
     with_entry live_bytes_by_segment segment (\<lambda>live_bytes.
     debug_assert (0 \<le>s live_bytes + delta) ''live_bytes >= 0''
    (Inr (live_bytes + delta,
          SpaceTrackerSimple (sm_put segment (live_bytes + delta) live_bytes_by_segment))))"

fun tracker_allocate ::
  "segment_id_t \<Rightarrow> seastore_off_t \<Rightarrow> extent_len_t \<Rightarrow> space_tracker \<Rightarrow>
   error + (64 word \<times> space_tracker)" where
  "tracker_allocate segment offset len (SpaceTrackerSimple live_bytes_by_segment) =
     simple_update_usage segment (ucast len) live_bytes_by_segment"
| "tracker_allocate segment offset len (SpaceTrackerDetailed segment_usage block_sizes) =
     with_entry segment_usage segment (\<lambda>m.
     if \<not> unat (device_id segment) < length block_sizes
     then Inl (Undefined ''block_size_by_segment_manager[segment.device_id()]'')
     else
     and_then (allocate (device_segment_id segment) offset len
                 (block_sizes ! unat (device_id segment)) m) (\<lambda>(ret, err, m').
     Inr (ret, SpaceTrackerDetailed (sm_put segment m' segment_usage) block_sizes)))"

fun tracker_release ::
  "segment_id_t \<Rightarrow> seastore_off_t \<Rightarrow> extent_len_t \<Rightarrow> space_tracker \<Rightarrow>
   error + (64 word \<times> space_tracker)" where
  "tracker_release segment offset len (SpaceTrackerSimple live_bytes_by_segment) =
     simple_update_usage segment (- ucast len) live_bytes_by_segment"
| "tracker_release segment offset len (SpaceTrackerDetailed segment_usage block_sizes) =
     with_entry segment_usage segment (\<lambda>m.
     if \<not> unat (device_id segment) < length block_sizes
     then Inl (Undefined ''block_size_by_segment_manager[segment.device_id()]'')
     else
     and_then (release (device_segment_id segment) offset len
                 (block_sizes ! unat (device_id segment)) m) (\<lambda>(ret, err, m').
     Inr (ret, SpaceTrackerDetailed (sm_put segment m' segment_usage) block_sizes)))"

fun get_usage :: "space_tracker \<Rightarrow> segment_id_t \<Rightarrow> error + 64 word" where
  "get_usage (SpaceTrackerSimple live_bytes_by_segment) segment =
     with_entry live_bytes_by_segment segment (\<lambda>live_bytes. Inr live_bytes)"
| "get_usage (SpaceTrackerDetailed segment_usage block_sizes) segment =
     with_entry segment_usage segment (\<lambda>m. Inr (map_get_usage m))"

text \<open>The bitmap that the detailed tracker keeps for a segment.\<close>

fun tracker_bitmap :: "space_tracker \<Rightarrow> segment_id_t \<Rightarrow> bool list option" where
  "tracker_bitmap (SpaceTrackerSimple live_bytes_by_segment) segment = None"
| "tracker_bitmap (SpaceTrackerDetailed segment_usage block_sizes) segment =
     Some (bitmap (sm_at segment_usage segment))"

text \<open>The block size that the detailed tracker uses for a segment.\<close>

fun tracker_block_size :: "space_tracker \<Rightarrow> segment_id_t \<Rightarrow> extent_len_t option" where
  "tracker_block_size (SpaceTrackerSimple live_bytes_by_segment) segment = None"
| "tracker_block_size (SpaceTrackerDetailed segment_usage block_sizes) segment =
     Some (block_sizes ! unat (device_id segment))"

section \<open>AsyncCleaner\<close>

text \<open>
  The members of \<^verbatim>\<open>AsyncCleaner\<close> that the functions below read and write. The
  optional promise \<^verbatim>\<open>blocked_io_wake\<close> is represented by whether it is engaged, and so
  is the promise \<^verbatim>\<open>blocking\<close> of the GC process. The counters are those of \<^verbatim>\<open>stats\<close>;
  \<^verbatim>\<open>segment_util\<close> holds the bucket counts of the utilization histogram.
\<close>

record journal_seq_t =
  segment_seq :: segment_seq_t
  journal_offset :: paddr_t  \<comment> \<open>the member \<^verbatim>\<open>offset\<close>\<close>

definition P_ADDR_NULL :: paddr_t where
  "P_ADDR_NULL = push_bit 56 255"

definition JOURNAL_SEQ_NULL :: journal_seq_t where
  "JOURNAL_SEQ_NULL = \<lparr>segment_seq = NULL_SEG_SEQ, journal_offset = P_ADDR_NULL\<rparr>"

record cleaner =
  segments :: segments_info_t
  space_tracker :: space_tracker
  init_complete :: bool
  disable_trim :: bool
  blocked_io_wake :: bool
  gc_blocking :: bool
  used_bytes :: size_t
  projected_used_bytes :: size_t
  projected_count :: "64 word"
  projected_used_bytes_sum :: "64 word"
  io_count :: "64 word"
  io_blocking_num :: "64 word"
  io_blocked_count :: "64 word"
  io_blocked_count_trim :: "64 word"
  io_blocked_count_reclaim :: "64 word"
  io_blocked_sum :: "64 word"
  segment_util :: "64 word list"
  journal_head :: journal_seq_t
  journal_alloc_tail :: journal_seq_t
  journal_dirty_tail :: journal_seq_t

text \<open>
  \<^verbatim>\<open>async_cleaner.h\<close> is not among the sources. The member functions that it defines
  and that \<^verbatim>\<open>async_cleaner.cc\<close> calls are parameters of the model. A \<^verbatim>\<open>double\<close> is
  represented by the real number it denotes.
  \<^item> \<open>calc_utilization\<close>, \<open>should_block_on_trim\<close>, \<open>should_block_on_reclaim\<close>,
    \<open>should_block_on_gc\<close>, \<open>get_segments_reclaimable\<close>: the \<^verbatim>\<open>const\<close> queries of
    these names;
  \<^item> \<open>is_in_journal c info\<close>: \<^verbatim>\<open>info.is_in_journal(get_journal_tail())\<close>;
  \<^item> \<open>submitted_journal_head_is_null\<close>: the comparison of
    \<^verbatim>\<open>get_submitted_journal_head()\<close> with \<^verbatim>\<open>JOURNAL_SEQ_NULL\<close> in \<^verbatim>\<open>init_closed\<close>;
  \<^item> \<open>adjust_segment_util\<close>: the update of the histogram's bucket counts;
  \<^item> \<open>gc_wake_due\<close>, \<open>io_wake_due\<close>: whether \<^verbatim>\<open>maybe_wake_on_space_used\<close> and
    \<^verbatim>\<open>maybe_wake_gc_blocked_io\<close> find their condition for fulfilling the pending
    promise met;
  \<^item> \<open>mod_to_timepoint\<close>: the conversion of the on-disk milliseconds to the clock's
    duration, whose unit is fixed by the seastar library;
  \<^item> \<open>initial_segment_util\<close>: the bucket counts that \<^verbatim>\<open>register_metrics\<close> sets up
    for a number of segments, all EMPTY (the number of buckets and the bucket of an
    EMPTY segment are constants of the header).
\<close>

record header =
  calc_utilization :: "cleaner \<Rightarrow> segment_id_t \<Rightarrow> real"
  adjust_segment_util :: "real \<Rightarrow> real \<Rightarrow> 64 word list \<Rightarrow> error + 64 word list"
  should_block_on_trim :: "cleaner \<Rightarrow> bool"
  should_block_on_reclaim :: "cleaner \<Rightarrow> bool"
  should_block_on_gc :: "cleaner \<Rightarrow> bool"
  gc_wake_due :: "cleaner \<Rightarrow> bool"
  io_wake_due :: "cleaner \<Rightarrow> bool"
  is_in_journal :: "cleaner \<Rightarrow> segment_info_t \<Rightarrow> bool"
  get_segments_reclaimable :: "cleaner \<Rightarrow> size_t"
  submitted_journal_head_is_null :: "segments_info_t \<Rightarrow> bool"
  mod_to_timepoint :: "64 word \<Rightarrow> sea_time_point"
  initial_segment_util :: "size_t \<Rightarrow> 64 word list"

text \<open>
  Modelled from the spec: \<^verbatim>\<open>GCProcess::maybe_wake_on_space_used\<close> and
  \<^verbatim>\<open>AsyncCleaner::maybe_wake_gc_blocked_io\<close>, defined in \<^verbatim>\<open>async_cleaner.h\<close>. The GC
  driver waits "on a condition fed by maybe\_wake\_on\_space\_used", and the gate's
  waiter "waits on a single-shot promise owned by the cleaner": a wake fulfils the
  pending promise and clears it, and does nothing else.
\<close>

definition maybe_wake_on_space_used :: "header \<Rightarrow> cleaner \<Rightarrow> cleaner" where
  "maybe_wake_on_space_used h c =
     (if gc_blocking c \<and> gc_wake_due h c then c\<lparr>gc_blocking := False\<rparr> else c)"

definition maybe_wake_gc_blocked_io :: "header \<Rightarrow> cleaner \<Rightarrow> cleaner" where
  "maybe_wake_gc_blocked_io h c =
     (if blocked_io_wake c \<and> io_wake_due h c then c\<lparr>blocked_io_wake := False\<rparr> else c)"

subsection \<open>mark\_space\_used and mark\_space\_free\<close>

text \<open>\<^verbatim>\<open>AsyncCleaner::mark_space_used\<close>.\<close>

definition mark_space_used ::
  "header \<Rightarrow> paddr_t \<Rightarrow> extent_len_t \<Rightarrow> bool \<Rightarrow> cleaner \<Rightarrow> error + cleaner" where
  "mark_space_used h addr len init_scan c =
     (if get_addr_type addr \<noteq> SEGMENT then Inr c
      else as_seg_paddr addr (\<lambda>seg_addr.
      if \<not> init_scan \<and> \<not> init_complete c then Inr c
      else
      let c1 = c\<lparr>used_bytes := used_bytes c + ucast len\<rparr>;
          old_usage = calc_utilization h c1 (get_segment_id seg_addr) in
      and_then (tracker_allocate (get_segment_id seg_addr) (get_segment_off seg_addr) len
                  (space_tracker c1)) (\<lambda>(ret, tracker).
      let c2 = c1\<lparr>space_tracker := tracker\<rparr>;
          new_usage = calc_utilization h c2 (get_segment_id seg_addr) in
      and_then (adjust_segment_util h old_usage new_usage (segment_util c2)) (\<lambda>buckets.
      let c3 = maybe_wake_on_space_used h (c2\<lparr>segment_util := buckets\<rparr>) in
      debug_assert (0 <s ret) ''ret > 0'' (Inr c3)))))"

text \<open>\<^verbatim>\<open>AsyncCleaner::mark_space_free\<close>.\<close>

definition mark_space_free ::
  "header \<Rightarrow> paddr_t \<Rightarrow> extent_len_t \<Rightarrow> bool \<Rightarrow> cleaner \<Rightarrow> error + cleaner" where
  "mark_space_free h addr len init_scan c =
     (if \<not> init_complete c \<and> \<not> init_scan then Inr c
      else if get_addr_type addr \<noteq> SEGMENT then Inr c
      else
      ceph_assert (ucast len \<le> used_bytes c) ''stats.used_bytes >= len''
     (let c1 = c\<lparr>used_bytes := used_bytes c - ucast len\<rparr> in
      as_seg_paddr addr (\<lambda>seg_addr.
      let old_usage = calc_utilization h c1 (get_segment_id seg_addr) in
      and_then (tracker_release (get_segment_id seg_addr) (get_segment_off seg_addr) len
                  (space_tracker c1)) (\<lambda>(ret, tracker).
      let c2 = c1\<lparr>space_tracker := tracker\<rparr>;
          new_usage = calc_utilization h c2 (get_segment_id seg_addr) in
      and_then (adjust_segment_util h old_usage new_usage (segment_util c2)) (\<lambda>buckets.
      let c3 = maybe_wake_gc_blocked_io h (c2\<lparr>segment_util := buckets\<rparr>) in
      debug_assert (0 \<le>s ret) ''ret >= 0'' (Inr c3))))))"

subsection \<open>maybe\_release\_segment\<close>

text \<open>
  \<^verbatim>\<open>AsyncCleaner::maybe_release_segment\<close>. \<open>to_release\<close> is the transaction's
  \<^verbatim>\<open>get_segment_to_release()\<close>, and \<open>released\<close> is the outcome of the device group's
  \<^verbatim>\<open>release_segment\<close>, whose errors are passed on to the caller.
\<close>

definition maybe_release_segment ::
  "header \<Rightarrow> segment_id_t \<Rightarrow> ct_error option \<Rightarrow> cleaner \<Rightarrow> error + cleaner" where
  "maybe_release_segment h to_release released c =
     (if to_release \<noteq> NULL_SEG_ID then
        (case released of
           Some e \<Rightarrow> Inl (Ct e)
         | None \<Rightarrow>
           let old_usage = calc_utilization h c to_release in
           if old_usage \<noteq> 0 then Inl (Abort ''old_usage != 0'')
           else
           and_then (mark_empty to_release (segments c)) (\<lambda>segs.
           let c1 = c\<lparr>segments := segs\<rparr>;
               new_usage = calc_utilization h c1 to_release in
           and_then (adjust_segment_util h old_usage new_usage (segment_util c1)) (\<lambda>buckets.
           let c2 = c1\<lparr>segment_util := buckets\<rparr> in
           and_then (get_usage (space_tracker c2) to_release) (\<lambda>usage.
           if usage \<noteq> 0 then Inl (Abort ''space_tracker->get_usage(to_release) != 0'')
           else Inr (maybe_wake_gc_blocked_io h c2)))))
      else Inr c)"

subsection \<open>reserve\_projected\_usage\<close>




subsection \<open>calc\_gc\_benefit\_cost\<close>

text \<open>
  The score of a segment is computed in \<^verbatim>\<open>double\<close> arithmetic. The conversion of an
  \<^verbatim>\<open>int64_t\<close> tick count to \<^verbatim>\<open>double\<close> and the rounded subtraction, multiplication
  and division of two doubles are parameters of the model.
  \<^verbatim>\<open>std::numeric_limits<double>::max()\<close> is the largest finite double, the
  53-bit significand of ones at the exponent 971.
\<close>

record double_arith =
  int64_to_double :: "64 word \<Rightarrow> real"
  d_sub :: "real \<Rightarrow> real \<Rightarrow> real"
  d_mul :: "real \<Rightarrow> real \<Rightarrow> real"
  d_div :: "real \<Rightarrow> real \<Rightarrow> real"

definition DBL_MAX :: real where
  "DBL_MAX = (2 ^ 53 - 1) * 2 ^ 971"

text \<open>
  \<^verbatim>\<open>AsyncCleaner::calc_gc_benefit_cost\<close> for the compiled
  \<^verbatim>\<open>gc_formula == gc_formula_t::COST_BENEFIT\<close>, in which \<^verbatim>\<open>bound_time\<close> is not read.
\<close>

definition calc_gc_benefit_cost ::
  "double_arith \<Rightarrow> header \<Rightarrow> cleaner \<Rightarrow> segment_id_t \<Rightarrow> sea_time_point \<Rightarrow>
   sea_time_point \<Rightarrow> error + real" where
  "calc_gc_benefit_cost fp h c seg_id now_time bound_time =
     (let util = calc_utilization h c seg_id in
      ceph_assert (util \<ge> 0 \<and> util < 1) ''util >= 0 && util < 1''
     (if util = 0 then Inr DBL_MAX
      else
      with_segment (segments c) seg_id (\<lambda>segment_info.
      let age_segment = int64_to_double fp (modify_time segment_info);
          age_now = int64_to_double fp now_time in
      if age_now > age_segment
      then Inr (d_div fp (d_mul fp (d_sub fp 1 util) (d_sub fp age_now age_segment))
                  (d_mul fp 2 util))
      else Inr (d_div fp (d_sub fp 1 util) (d_mul fp 2 util)))))"

text \<open>
  The score as the specification states it, over the real numbers and with \<open>None\<close> for
  \<open>+\<infinity>\<close>: "\<open>(1 - u) * (now - m) / (2u)\<close> when \<open>0 < u < 1\<close> and \<open>now > m\<close>; when
  \<open>u = 0\<close> the score is the maximal (+infinity) value; and when the clock is
  non-monotone (\<open>m\<close> at or after \<open>now\<close>) the score falls back to \<open>(1 - u) / (2u)\<close>".
\<close>

definition spec_cost_benefit_score :: "real \<Rightarrow> int \<Rightarrow> int \<Rightarrow> real option" where
  "spec_cost_benefit_score u now m =
     (if u = 0 then None
      else if now > m then Some ((1 - u) * (real_of_int now - real_of_int m) / (2 * u))
      else Some ((1 - u) / (2 * u)))"

text \<open>Arithmetic without rounding.\<close>

definition exact_arith :: double_arith where
  "exact_arith =
     \<lparr>int64_to_double = (\<lambda>t. real_of_int (sint t)),
      d_sub = (\<lambda>a b. a - b), d_mul = (\<lambda>a b. a * b), d_div = (\<lambda>a b. a / b)\<rparr>"

subsection \<open>Iterating over the segments\<close>

text \<open>
  The iterator of \<^verbatim>\<open>segment_map_t\<close> visits the device vectors in the order of the
  device ids and each vector from its first entry to its last. At each entry it
  constructs \<^verbatim>\<open>segment_id_t{device_id, device_segment_id}\<close>, whose constructor asserts
  that the device id is one of a segment device, and refers to the entry at that
  position.
\<close>

definition segment_positions :: "segments_info_t \<Rightarrow> (nat \<times> nat) list" where
  "segment_positions s =
     concat (map (\<lambda>d. map (\<lambda>i. (d, i)) [0 ..< length (device_to_segments s ! d)])
               [0 ..< length (device_to_segments s)])"

definition position_id :: "nat \<times> nat \<Rightarrow> segment_id_t" where
  "position_id p = make_internal (of_nat (fst p)) (of_nat (snd p))"

definition iterator_segment_id :: "nat \<times> nat \<Rightarrow> error + segment_id_t" where
  "iterator_segment_id p =
     debug_assert (device_id_to_paddr_type (device_id (position_id p)) = SEGMENT)
       ''device_id_to_paddr_type(device_id()) == paddr_types_t::SEGMENT''
       (Inr (position_id p))"


subsection \<open>get\_next\_reclaim\_segment\<close>




subsection \<open>mount\<close>

text \<open>
  The fields of the segment header, the segment tail and a record header that
  \<^verbatim>\<open>mount\<close> and \<^verbatim>\<open>scan_no_tail_segment\<close> read.
\<close>

record segment_header_t =
  hdr_segment_seq :: segment_seq_t
  hdr_segment_nonce :: "32 word"
  hdr_type :: segment_type_t
  hdr_category :: data_category_t
  hdr_generation :: reclaim_gen_t

record segment_tail_t =
  tail_segment_nonce :: "32 word"
  tail_modify_time :: "64 word"
  tail_num_extents :: size_t

record record_header_t =
  rh_modify_time :: "64 word"
  rh_extents :: size_t

text \<open>
  The device group, a collaborator: the outcome of reading the header and the tail of
  a segment, and of \<^verbatim>\<open>scan_valid_records\<close>, which hands the record groups that it
  finds to the handler, each with its record headers or \<open>None\<close> when they do not
  decode, and ends with or without an error of its own.
\<close>

record devices =
  read_segment_header :: "segment_id_t \<Rightarrow> ct_error + segment_header_t"
  read_segment_tail :: "segment_id_t \<Rightarrow> ct_error + segment_tail_t"
  scan_valid_records :: "segment_id_t \<Rightarrow> record_header_t list option list \<times> ct_error option"

text \<open>
  Modelled from the spec: \<^verbatim>\<open>AsyncCleaner::init_mark_segment_closed\<close>, defined in
  \<^verbatim>\<open>async_cleaner.h\<close>: "Transition EMPTY to CLOSED with the header's
  seq/type/category/generation", the \<^verbatim>\<open>init_closed\<close> of the segment directory.
\<close>

definition init_mark_segment_closed ::
  "header \<Rightarrow> segment_id_t \<Rightarrow> segment_seq_t \<Rightarrow> segment_type_t \<Rightarrow> data_category_t \<Rightarrow>
   reclaim_gen_t \<Rightarrow> cleaner \<Rightarrow> error + cleaner" where
  "init_mark_segment_closed h segment seq' type' category' generation' c =
     and_then (init_closed (submitted_journal_head_is_null h) segment seq' type' category'
                 generation' (segments c))
       (\<lambda>segs. Inr (c\<lparr>segments := segs\<rparr>))"

text \<open>
  A step of the mount may fail after it has changed the cleaner, and an error handler
  further out may absorb the failure: these functions return the cleaner as it is
  when they end, together with the error, if any.
\<close>

definition keep_state :: "cleaner \<Rightarrow> error + cleaner \<Rightarrow> error option \<times> cleaner" where
  "keep_state c r = (case r of Inl e \<Rightarrow> (Some e, c) | Inr c' \<Rightarrow> (None, c'))"

text \<open>The handler of \<^verbatim>\<open>scan_no_tail_segment\<close> on the record headers of one group.\<close>

fun scan_record_headers ::
  "header \<Rightarrow> segment_id_t \<Rightarrow> record_header_t list \<Rightarrow> cleaner \<Rightarrow> error option \<times> cleaner" where
  "scan_record_headers h segment_id [] c = (None, c)"
| "scan_record_headers h segment_id (record_header # rest) c =
     (let modify_time = mod_to_timepoint h (rh_modify_time record_header) in
      if rh_extents record_header = 0 \<or> modify_time \<noteq> NULL_TIME
      then (case update_modify_time segment_id modify_time (rh_extents record_header)
                   (segments c) of
              Inl e \<Rightarrow> (Some e, c)
            | Inr segs \<Rightarrow> scan_record_headers h segment_id rest (c\<lparr>segments := segs\<rparr>))
      else (Some (Ct input_output_error), c))"

fun scan_record_groups ::
  "header \<Rightarrow> segment_id_t \<Rightarrow> record_header_t list option list \<Rightarrow> cleaner \<Rightarrow>
   error option \<times> cleaner" where
  "scan_record_groups h segment_id [] c = (None, c)"
| "scan_record_groups h segment_id (maybe_headers # groups) c =
     (case maybe_headers of
        None \<Rightarrow> (Some (Ct input_output_error), c)
      | Some headers \<Rightarrow>
          (case scan_record_headers h segment_id headers c of
             (Some e, c') \<Rightarrow> (Some e, c')
           | (None, c') \<Rightarrow> scan_record_groups h segment_id groups c'))"

text \<open>\<^verbatim>\<open>AsyncCleaner::scan_no_tail_segment\<close>.\<close>

definition scan_no_tail_segment ::
  "header \<Rightarrow> devices \<Rightarrow> segment_header_t \<Rightarrow> segment_id_t \<Rightarrow> cleaner \<Rightarrow>
   error option \<times> cleaner" where
  "scan_no_tail_segment h dev segment_header segment_id c =
     (case scan_record_groups h segment_id (fst (scan_valid_records dev segment_id)) c of
        (Some e, c') \<Rightarrow> (Some e, c')
      | (None, c') \<Rightarrow>
          (case snd (scan_valid_records dev segment_id) of
             Some e \<Rightarrow> (Some (Ct e), c')
           | None \<Rightarrow>
               keep_state c'
                 (init_mark_segment_closed h segment_id (hdr_segment_seq segment_header)
                    (hdr_type segment_header) (hdr_category segment_header)
                    (hdr_generation segment_header) c')))"

text \<open>
  The continuation of \<^verbatim>\<open>read_segment_tail\<close> in \<^verbatim>\<open>mount\<close>, with its error handler:
  \<^verbatim>\<open>enodata\<close> leads to the scan, every other error is passed further.
\<close>

definition mount_segment_tail ::
  "header \<Rightarrow> devices \<Rightarrow> segment_header_t \<Rightarrow> segment_id_t \<Rightarrow> cleaner \<Rightarrow>
   error option \<times> cleaner" where
  "mount_segment_tail h dev header' segment_id c =
     (case read_segment_tail dev segment_id of
        Inl enodata \<Rightarrow> scan_no_tail_segment h dev header' segment_id c
      | Inl e \<Rightarrow> (Some (Ct e), c)
      | Inr tail \<Rightarrow>
          if tail_segment_nonce tail \<noteq> hdr_segment_nonce header'
          then scan_no_tail_segment h dev header' segment_id c
          else
          let modify_time = mod_to_timepoint h (tail_modify_time tail);
              num_extents' = tail_num_extents tail in
          if (modify_time = NULL_TIME \<and> num_extents' = 0) \<or>
             (modify_time \<noteq> NULL_TIME \<and> num_extents' \<noteq> 0)
          then (case update_modify_time segment_id modify_time num_extents' (segments c) of
                  Inl e \<Rightarrow> (Some e, c)
                | Inr segs \<Rightarrow>
                    keep_state (c\<lparr>segments := segs\<rparr>)
                      (init_mark_segment_closed h segment_id (hdr_segment_seq header')
                         (hdr_type header') (hdr_category header') (hdr_generation header')
                         (c\<lparr>segments := segs\<rparr>)))
          else (Some (Ct input_output_error), c))"

text \<open>
  The outer error handler of the loop body: \<^verbatim>\<open>enoent\<close> and \<^verbatim>\<open>enodata\<close> are absorbed,
  \<^verbatim>\<open>input_output_error\<close> is passed further, and \<^verbatim>\<open>assert_all\<close> ends the process on
  any other error.
\<close>

definition mount_handle_error :: "error option \<times> cleaner \<Rightarrow> error + cleaner" where
  "mount_handle_error r =
     (case r of
        (None, c) \<Rightarrow> Inr c
      | (Some (Ct enoent), c) \<Rightarrow> Inr c
      | (Some (Ct enodata), c) \<Rightarrow> Inr c
      | (Some (Ct input_output_error), c) \<Rightarrow> Inl (Ct input_output_error)
      | (Some (Ct e), c) \<Rightarrow> Inl (Abort ''unexpected error'')
      | (Some e, c) \<Rightarrow> Inl e)"

text \<open>The body of the loop of \<^verbatim>\<open>AsyncCleaner::mount\<close> for one segment.\<close>

definition mount_segment ::
  "header \<Rightarrow> devices \<Rightarrow> segment_id_t \<Rightarrow> cleaner \<Rightarrow> error + cleaner" where
  "mount_segment h dev segment_id c =
     mount_handle_error
       (case read_segment_header dev segment_id of
          Inl e \<Rightarrow> (Some (Ct e), c)
        | Inr header' \<Rightarrow>
            if hdr_type header' = NULL_SEG then (Some (Abort ''got null segment''), c)
            else mount_segment_tail h dev header' segment_id c)"

text \<open>\<^verbatim>\<open>crimson::do_for_each\<close> over the segments: the first error ends the loop.\<close>

fun mount_segments ::
  "header \<Rightarrow> devices \<Rightarrow> (nat \<times> nat) list \<Rightarrow> cleaner \<Rightarrow> error + cleaner" where
  "mount_segments h dev [] c = Inr c"
| "mount_segments h dev (p # ps) c =
     and_then (iterator_segment_id p) (\<lambda>segment_id.
     and_then (mount_segment h dev segment_id c) (mount_segments h dev ps))"

fun add_segment_managers ::
  "(device_id_t \<times> seastore_off_t \<times> device_segment_id_t \<times> size_t) list \<Rightarrow> segments_info_t \<Rightarrow>
   error + segments_info_t" where
  "add_segment_managers [] s = Inr s"
| "add_segment_managers ((d_id, ssize, nsegments, sm_size) # sms) s =
     and_then (add_segment_manager d_id ssize nsegments sm_size s) (add_segment_managers sms)"

text \<open>
  \<^verbatim>\<open>AsyncCleaner::mount\<close>. \<open>sms\<close> is what the segment managers of the device group
  report, and \<open>fresh_tracker\<close> the space tracker that is constructed for them.
  \<^verbatim>\<open>stats = {}\<close> clears the counters.
\<close>

definition mount ::
  "header \<Rightarrow> devices \<Rightarrow> (device_id_t \<times> seastore_off_t \<times> device_segment_id_t \<times> size_t) list \<Rightarrow>
   space_tracker \<Rightarrow> cleaner \<Rightarrow> error + cleaner" where
  "mount h dev sms fresh_tracker c =
     (let c1 = c\<lparr>init_complete := False,
                 used_bytes := 0, projected_used_bytes := 0, projected_count := 0,
                 projected_used_bytes_sum := 0, io_count := 0, io_blocking_num := 0,
                 io_blocked_count := 0, io_blocked_count_trim := 0,
                 io_blocked_count_reclaim := 0, io_blocked_sum := 0, segment_util := [],
                 journal_head := JOURNAL_SEQ_NULL, journal_alloc_tail := JOURNAL_SEQ_NULL,
                 journal_dirty_tail := JOURNAL_SEQ_NULL,
                 space_tracker := fresh_tracker\<rparr> in
      and_then (add_segment_managers sms reset) (\<lambda>segs.
      let c2 = c1\<lparr>segments := segs,
                  segment_util := initial_segment_util h (total_segments segs)\<rparr> in
      mount_segments h dev (segment_positions segs) c2))"

section \<open>Example configuration\<close>

text \<open>
  One device of four segments of 4096 bytes with the coarse tracker, after
  \<^verbatim>\<open>complete_init\<close>. In the example the utilization is the live bytes over the
  segment size, the histogram is left alone, and foreground IO is blocked while more
  than 8192 bytes are in use.
\<close>

definition example_segments :: segments_info_t where
  "example_segments =
     reset\<lparr>device_to_segments := (device_to_segments reset)[0 := replicate 4 segment_info_init],
           total_segments := 4, segment_size := 4096, num_empty := 4, total_bytes := 16384\<rparr>"

definition example_header :: header where
  "example_header =
     \<lparr>calc_utilization =
        (\<lambda>c i. case get_usage (space_tracker c) i of
                  Inl e \<Rightarrow> 0 | Inr u \<Rightarrow> real_of_int (sint u) / 4096),
      adjust_segment_util = (\<lambda>old_usage new_usage buckets. Inr buckets),
      should_block_on_trim = (\<lambda>c. False),
      should_block_on_reclaim = (\<lambda>c. 8192 < used_bytes c),
      should_block_on_gc = (\<lambda>c. 8192 < used_bytes c),
      gc_wake_due = (\<lambda>c. True),
      io_wake_due = (\<lambda>c. \<not> 8192 < used_bytes c),
      is_in_journal = (\<lambda>c info. False),
      get_segments_reclaimable = (\<lambda>c. 0),
      submitted_journal_head_is_null = (\<lambda>s. journal_segment_id s = NULL_SEG_ID),
      mod_to_timepoint = (\<lambda>t. t * 1000000),
      initial_segment_util = (\<lambda>n. [])\<rparr>"

definition example_cleaner :: cleaner where
  "example_cleaner =
     \<lparr>segments = example_segments,
      space_tracker = SpaceTrackerSimple [[0, 0, 0, 0]],
      init_complete = True, disable_trim = False,
      blocked_io_wake = False, gc_blocking = False,
      used_bytes = 0, projected_used_bytes = 0, projected_count = 0,
      projected_used_bytes_sum = 0, io_count = 0, io_blocking_num = 0,
      io_blocked_count = 0, io_blocked_count_trim = 0, io_blocked_count_reclaim = 0,
      io_blocked_sum = 0, segment_util = [],
      journal_head = JOURNAL_SEQ_NULL\<lparr>segment_seq := 7\<rparr>,
      journal_alloc_tail = JOURNAL_SEQ_NULL\<lparr>segment_seq := 7\<rparr>,
      journal_dirty_tail = JOURNAL_SEQ_NULL\<lparr>segment_seq := 7\<rparr>\<rparr>"

text \<open>
  The devices of the example: segment 0 has a header and a matching tail, the header
  read of segment 1 ends with \<^verbatim>\<open>enoent\<close>, that of the other segments with
  \<^verbatim>\<open>enodata\<close>.
\<close>

definition example_devices :: devices where
  "example_devices =
     \<lparr>read_segment_header =
        (\<lambda>i. if i = 0
             then Inr \<lparr>hdr_segment_seq = 3, hdr_segment_nonce = 77, hdr_type = OOL,
                       hdr_category = DATA, hdr_generation = 0\<rparr>
             else if i = 1 then Inl enoent else Inl enodata),
      read_segment_tail =
        (\<lambda>i. Inr \<lparr>tail_segment_nonce = 77, tail_modify_time = 5, tail_num_extents = 2\<rparr>),
      scan_valid_records = (\<lambda>i. ([], None))\<rparr>"

text \<open>
  The conversion of an \<^verbatim>\<open>int64_t\<close> to an IEEE 754 binary64 number in the default
  rounding mode: the nearest number with a significand of 53 bits, the even one of two
  that are equally near. \<open>significand_shift\<close> counts the low bits that do not fit (at
  most 11 for an \<^verbatim>\<open>int64_t\<close>).
\<close>

fun significand_shift :: "nat \<Rightarrow> int \<Rightarrow> nat" where
  "significand_shift 0 a = 0"
| "significand_shift (Suc fuel) a =
     (if a < 2 ^ 53 then 0 else Suc (significand_shift fuel (a div 2)))"

definition round_to_double :: "int \<Rightarrow> int" where
  "round_to_double n =
     (let a = \<bar>n\<bar>;
          k = significand_shift 11 a;
          q = a div 2 ^ k;
          r = a mod 2 ^ k;
          q' = (if 2 * r > 2 ^ k \<or> (2 * r = 2 ^ k \<and> odd q) then q + 1 else q)
      in sgn n * (q' * 2 ^ k))"

text \<open>
  The arithmetic of the examples: tick counts are rounded as above; the operations are
  the exact ones, whose results on the operands of the examples are doubles.
\<close>

definition example_arith :: double_arith where
  "example_arith = exact_arith\<lparr>int64_to_double := (\<lambda>t. real_of_int (round_to_double (sint t)))\<rparr>"

text \<open>
  A state for the victim selection: segment 0 is EMPTY, the segments 1, 2 and 3 are
  CLOSED data segments, each half full, last modified at the ticks 14, 6 and 6. At the
  tick 20 their scores are 3, 7 and 7.
\<close>

definition example_closed_cleaner :: cleaner where
  "example_closed_cleaner =
     example_cleaner\<lparr>segments :=
       example_segments\<lparr>device_to_segments :=
         [[segment_info_init,
           segment_info_init\<lparr>state := CLOSED, seq := 1, type := OOL, modify_time := 14,
                              written_to := 4096\<rparr>,
           segment_info_init\<lparr>state := CLOSED, seq := 2, type := OOL, modify_time := 6,
                              written_to := 4096\<rparr>,
           segment_info_init\<lparr>state := CLOSED, seq := 3, type := OOL, modify_time := 6,
                              written_to := 4096\<rparr>]],
         num_empty := 1, num_closed := 3\<rparr>,
       space_tracker := SpaceTrackerSimple [[0, 2048, 2048, 2048]]\<rparr>"

text \<open>
  The same state with segment 1 last modified at the tick \<open>2\<^sup>5\<^sup>4\<close>. The tick
  \<open>2\<^sup>5\<^sup>4 + 2\<close> is later, lies halfway between two doubles and is rounded to
  \<open>2\<^sup>5\<^sup>4\<close>.
\<close>

definition example_late_cleaner :: cleaner where
  "example_late_cleaner =
     example_closed_cleaner\<lparr>segments :=
       seg_put 1 ((seg_at (segments example_closed_cleaner) 1)
                    \<lparr>modify_time := 18014398509481984\<rparr>)
         (segments example_closed_cleaner)\<rparr>"









section \<open>Proofs: the aggregate counters of the segment directory\<close>

lemma sum_list_map_update:
  fixes f :: "'a \<Rightarrow> 'b::ab_group_add"
  shows "i < length xs \<Longrightarrow> sum_list (map f (xs[i := v])) = sum_list (map f xs) - f (xs ! i) + f v"
  by (induction xs arbitrary: i) (auto split: nat.splits simp: algebra_simps)

lemma sum_list_concat_update:
  fixes f :: "'a \<Rightarrow> 'b::ab_group_add"
  assumes "d < length xss"
  shows "sum_list (map f (concat (xss[d := ys]))) =
         sum_list (map f (concat xss)) - sum_list (map f (xss ! d)) + sum_list (map f ys)"
proof -
  have c: "sum_list (map f (concat zss)) = sum_list (map (\<lambda>zs. sum_list (map f zs)) zss)" for zss
    by (induction zss) auto
  show ?thesis
    unfolding c using sum_list_map_update [OF assms, of "\<lambda>zs. sum_list (map f zs)" ys] by simp
qed

lemma sum_all_segments_seg_put:
  fixes f :: "segment_info_t \<Rightarrow> 'b::ab_group_add"
  assumes "contains s i"
  shows "sum_list (map f (all_segments (seg_put i v s))) =
         sum_list (map f (all_segments s)) - f (seg_at s i) + f v"
  using assms
  by (simp add: all_segments_def seg_put_def contains_def seg_at_def
      sum_list_concat_update sum_list_map_update algebra_simps)

lemma sum_avail_seg_put:
  assumes "contains s i"
  shows "sum_avail_in_open (seg_put i v s) =
         sum_avail_in_open s - open_avail (segment_size s) (seg_at s i) + open_avail (segment_size s) v"
  using sum_all_segments_seg_put [OF assms, of "open_avail (segment_size s)" v]
  by (simp add: sum_avail_in_open_def seg_put_def)

text \<open>A call through operator[] that returns has found the segment.\<close>

lemma with_segment_Inr:
  "with_segment s i k = Inr r \<Longrightarrow> contains s i \<and> k (seg_at s i) = Inr r"
  by (auto simp: with_segment_def debug_assert_def contains_def split: if_splits)

lemma ceph_assert_Inr: "ceph_assert c msg k = Inr r \<Longrightarrow> c \<and> k = Inr r"
  by (auto simp: ceph_assert_def split: if_splits)

lemma debug_assert_Inr: "debug_assert c msg k = Inr r \<Longrightarrow> c \<and> k = Inr r"
  by (auto simp: debug_assert_def split: if_splits)

lemma and_then_Inr: "and_then r k = Inr y \<Longrightarrow> \<exists>x. r = Inr x \<and> k x = Inr y"
  by (auto simp: and_then_def split: sum.splits)

lemma sum_avail_counters [simp]:
  "sum_avail_in_open (s\<lparr>num_empty := a\<rparr>) = sum_avail_in_open s"
  "sum_avail_in_open (s\<lparr>num_open := a\<rparr>) = sum_avail_in_open s"
  "sum_avail_in_open (s\<lparr>num_closed := a\<rparr>) = sum_avail_in_open s"
  "sum_avail_in_open (s\<lparr>avail_bytes_in_open := a\<rparr>) = sum_avail_in_open s"
  by (simp_all add: sum_avail_in_open_def all_segments_def)


lemma sum_concat_nested_update:
  fixes f :: "'a \<Rightarrow> 'b::ab_group_add"
  assumes "d < length xss" "i < length (xss ! d)"
  shows "sum_list (map f (concat (xss[d := (xss ! d)[i := v]]))) =
         sum_list (map f (concat xss)) - f (xss ! d ! i) + f v"
  using assms by (simp add: sum_list_concat_update sum_list_map_update algebra_simps)

lemmas op_defs = ceph_assert_def debug_assert_def and_then_def with_segment_def Let_def
  contains_def seg_at_def seg_put_def

lemmas agg_defs = aggregates_ok_def get_available_bytes_def sum_avail_in_open_def
  all_segments_def open_avail_def is_open_def is_empty_def is_closed_def

lemma mark_open_aggregates:
  assumes "aggregates_ok s" "mark_open segment sq ty cat gen s = Inr s'"
  shows "aggregates_ok s'"
  using assms
  by (auto simp: mark_open_def set_open_def op_defs agg_defs sum_concat_nested_update add.assoc
      split: if_splits)

lemma mark_closed_aggregates:
  assumes "aggregates_ok s" "mark_closed segment s = Inr s'"
  shows "aggregates_ok s'"
  using assms
  by (auto simp: mark_closed_def set_closed_def op_defs agg_defs sum_concat_nested_update add.assoc
      split: if_splits)

lemma mark_empty_aggregates:
  assumes "aggregates_ok s" "mark_empty segment s = Inr s'"
  shows "aggregates_ok s'"
  using assms
  by (auto simp: mark_empty_def set_empty_def op_defs agg_defs sum_concat_nested_update add.assoc
      split: if_splits)

lemma init_closed_aggregates:
  assumes "aggregates_ok s" "init_closed h segment sq ty cat gen s = Inr s'"
  shows "aggregates_ok s'"
  using assms
  by (auto simp: init_closed_def info_init_closed_def op_defs agg_defs sum_concat_nested_update add.assoc
      split: if_splits)

lemma update_written_to_aggregates:
  assumes "aggregates_ok s" "update_written_to ty offset s = Inr s'"
  shows "aggregates_ok s'"
  using assms
  by (auto simp: update_written_to_def as_seg_paddr_def op_defs agg_defs sum_concat_nested_update add.assoc
      split: if_splits)

lemma update_modify_time_aggregates:
  assumes "aggregates_ok s" "update_modify_time segment tp num s = Inr s'"
  shows "aggregates_ok s'"
  using assms
  by (auto simp: update_modify_time_def get_average_time_def op_defs agg_defs sum_concat_nested_update add.assoc
      split: if_splits)


lemma scast_pos_nonzero:
  fixes x :: "32 word"
  assumes "0 <s x"
  shows "(scast x :: 64 word) \<noteq> 0"
proof
  assume "(scast x :: 64 word) = 0"
  then have "sint (scast x :: 64 word) = 0" by simp
  moreover have "sint (scast x :: 64 word) = sint x"
    by (simp add: sint_up_scast is_up)
  ultimately have "sint x = 0" by simp
  with assms show False by (simp add: word_sless_alt)
qed

lemma sum_list_replicate_zero:
  "f x = (0::'b::ab_group_add) \<Longrightarrow> sum_list (map f (replicate n x)) = 0"
  by (induction n) auto

lemma concat_Nil_update:
  "concat xss = [] \<Longrightarrow> d < length xss \<Longrightarrow> concat (xss[d := ys]) = ys"
  by (induction xss arbitrary: d) (auto split: nat.splits)

lemma sum_concat_all_Nil:
  "\<forall>xs\<in>set xss. xs = [] \<Longrightarrow> sum_list (map f (concat xss)) = 0"
  by (induction xss) auto

lemma add_segment_manager_aggregates:
  assumes "aggregates_ok s" "size_ok s" "add_segment_manager d_id ssize nsegments sm_size s = Inr s'"
  shows "aggregates_ok s' \<and> size_ok s'"
  using assms
  apply (auto simp: add_segment_manager_def add_device_def op_defs agg_defs size_ok_def
      segment_info_init_def sum_list_concat_update sum_list_replicate_zero concat_Nil_update
      scast_pos_nonzero sum_list_replicate add.assoc sum_concat_all_Nil
      split: if_splits)
  done

lemma mark_open_size_ok:
  "size_ok s \<Longrightarrow> mark_open segment sq ty cat gen s = Inr s' \<Longrightarrow> size_ok s'"
  by (auto simp: mark_open_def set_open_def op_defs size_ok_def all_segments_def
      split: if_splits dest!: nth_mem)

lemma mark_closed_size_ok:
  "size_ok s \<Longrightarrow> mark_closed segment s = Inr s' \<Longrightarrow> size_ok s'"
  by (auto simp: mark_closed_def set_closed_def op_defs size_ok_def all_segments_def
      split: if_splits dest!: nth_mem)

lemma mark_empty_size_ok:
  "size_ok s \<Longrightarrow> mark_empty segment s = Inr s' \<Longrightarrow> size_ok s'"
  by (auto simp: mark_empty_def set_empty_def op_defs size_ok_def all_segments_def
      split: if_splits dest!: nth_mem)

lemma init_closed_size_ok:
  "size_ok s \<Longrightarrow> init_closed h segment sq ty cat gen s = Inr s' \<Longrightarrow> size_ok s'"
  by (auto simp: init_closed_def info_init_closed_def op_defs size_ok_def all_segments_def
      split: if_splits dest!: nth_mem)

lemma update_written_to_size_ok:
  "size_ok s \<Longrightarrow> update_written_to ty offset s = Inr s' \<Longrightarrow> size_ok s'"
  by (auto simp: update_written_to_def as_seg_paddr_def op_defs size_ok_def all_segments_def
      split: if_splits dest!: nth_mem)

lemma update_modify_time_size_ok:
  "size_ok s \<Longrightarrow> update_modify_time segment tp num s = Inr s' \<Longrightarrow> size_ok s'"
  by (auto simp: update_modify_time_def get_average_time_def op_defs size_ok_def all_segments_def
      split: if_splits dest!: nth_mem)

lemma reset_aggregates: "aggregates_ok reset \<and> size_ok reset"
  by (simp add: reset_def agg_defs size_ok_def)

lemma reachable_directory_inv: "reachable s \<Longrightarrow> aggregates_ok s \<and> size_ok s"
proof (induction rule: reachable.induct)
  case reach_reset
  show ?case by (rule reset_aggregates)
next
  case (reach_add_segment_manager s d_id ssize nsegments sm_size s')
  then show ?case using add_segment_manager_aggregates by blast
next
  case (reach_init_closed s head_is_null segment sq ty cat gen s')
  then show ?case using init_closed_aggregates init_closed_size_ok by blast
next
  case (reach_mark_open s segment sq ty cat gen s')
  then show ?case using mark_open_aggregates mark_open_size_ok by blast
next
  case (reach_mark_closed s segment s')
  then show ?case using mark_closed_aggregates mark_closed_size_ok by blast
next
  case (reach_mark_empty s segment s')
  then show ?case using mark_empty_aggregates mark_empty_size_ok by blast
next
  case (reach_update_written_to s ty offset s')
  then show ?case using update_written_to_aggregates update_written_to_size_ok by blast
next
  case (reach_update_modify_time s segment tp num s')
  then show ?case using update_modify_time_aggregates update_modify_time_size_ok by blast
qed

lemmas eval_defs = op_defs reset_def DEVICE_ID_MAX_VALID_def word_sless_alt
  device_id_def device_segment_id_def DEVICE_SEGMENT_ID_BITS_def segment_info_init_def
  is_empty_def is_open_def is_closed_def NULL_SEG_SEQ_def NULL_TIME_def RECLAIM_GENERATIONS_def
  NULL_GENERATION_def NULL_SEG_ID_def DEVICE_ID_MAX_VALID_SEGMENT_def make_internal_def
  add_segment_manager_def add_device_def init_closed_def info_init_closed_def
  mark_open_def set_open_def update_written_to_def as_seg_paddr_def mark_closed_def set_closed_def
  mark_empty_def set_empty_def get_addr_type_def get_device_id_def device_id_to_paddr_type_def
  get_segment_id_def get_segment_off_def make_seg_paddr_def

subsection \<open>Segments addressed through the map\<close>

lemma dts_cong:
  assumes "device_to_segments a = device_to_segments b"
  shows "contains a = contains b" "seg_at a = seg_at b" "all_segments a = all_segments b"
    "num_open_journal a = num_open_journal b"
  using assms by (auto simp: contains_def seg_at_def all_segments_def num_open_journal_def fun_eq_iff)

lemma contains_seg_put [simp]: "contains (seg_put i v s) j = contains s j"
  by (cases "unat (device_id j) = unat (device_id i)")
     (auto simp: contains_def seg_put_def)

lemma seg_at_seg_put:
  assumes "contains s i" "contains s j"
  shows "seg_at (seg_put i v s) j =
         (if device_id j = device_id i \<and> device_segment_id j = device_segment_id i then v
          else seg_at s j)"
proof -
  have "device_id j = device_id i \<longleftrightarrow> unat (device_id j) = unat (device_id i)"
       "device_segment_id j = device_segment_id i \<longleftrightarrow>
        unat (device_segment_id j) = unat (device_segment_id i)"
    by (simp_all add: word_unat_eq_iff)
  then show ?thesis
    using assms by (auto simp: contains_def seg_put_def seg_at_def)
qed


lemma seg_at_mem: "contains s i \<Longrightarrow> seg_at s i \<in> set (all_segments s)"
  by (auto simp: contains_def seg_at_def all_segments_def
      intro!: bexI [of _ "device_to_segments s ! unat (device_id i)"])


lemma length_filter_update:
  "i < length xs \<Longrightarrow>
   length (filter P (xs[i := v])) + of_bool (P (xs ! i)) = length (filter P xs) + of_bool (P v)"
proof (induction xs arbitrary: i)
  case Nil
  then show ?case by simp
next
  case (Cons a xs)
  show ?case
  proof (cases i)
    case 0
    then show ?thesis by simp
  next
    case (Suc k)
    with Cons.prems have "k < length xs" by simp
    from Cons.IH [OF this] Suc show ?thesis by simp
  qed
qed

lemma length_filter_concat:
  "length (filter P (concat xss)) = sum_list (map (\<lambda>xs. length (filter P xs)) xss)"
  by (induction xss) auto

lemma sum_list_nat_update:
  fixes f :: "'a \<Rightarrow> nat"
  shows "i < length xs \<Longrightarrow> sum_list (map f (xs[i := v])) + f (xs ! i) = sum_list (map f xs) + f v"
  by (induction xs arbitrary: i) (auto split: nat.splits)

lemma length_filter_concat_update:
  assumes "d < length xss" "i < length (xss ! d)"
  shows "length (filter P (concat (xss[d := (xss ! d)[i := v]]))) + of_bool (P (xss ! d ! i)) =
         length (filter P (concat xss)) + of_bool (P v)"
proof -
  let ?g = "\<lambda>xs. length (filter P xs)"
  have 1: "sum_list (map ?g (xss[d := (xss ! d)[i := v]])) + ?g (xss ! d) =
           sum_list (map ?g xss) + ?g ((xss ! d)[i := v])"
    using assms(1) by (rule sum_list_nat_update)
  have 2: "?g ((xss ! d)[i := v]) + of_bool (P (xss ! d ! i)) = ?g (xss ! d) + of_bool (P v)"
    using assms(2) by (rule length_filter_update)
  show ?thesis
    unfolding length_filter_concat using 1 2 by linarith
qed



subsection \<open>What each operation does to the segment map\<close>

lemma mark_open_shape:
  assumes "mark_open segment sq ty cat gen s = Inr s'"
  shows "contains s segment" "is_empty (seg_at s segment)"
    "device_to_segments s' = device_to_segments (seg_put segment
        ((seg_at s segment)\<lparr>state := OPEN, seq := sq, type := ty, category := cat,
                              generation := gen, written_to := 0\<rparr>) s)"
    "journal_segment_id s' = (if ty = JOURNAL then segment else journal_segment_id s)"
    "sq \<noteq> NULL_SEG_SEQ"
    "ty = JOURNAL \<Longrightarrow> journal_segment_id s \<noteq> NULL_SEG_ID \<Longrightarrow>
       contains s (journal_segment_id s) \<and> is_closed (seg_at s (journal_segment_id s)) \<and>
       type (seg_at s (journal_segment_id s)) = JOURNAL \<and>
       seq (seg_at s (journal_segment_id s)) + 1 = sq"
  using assms
  by (auto simp: mark_open_def set_open_def op_defs split: if_splits)

lemma mark_closed_shape:
  assumes "mark_closed segment s = Inr s'"
  shows "contains s segment" "is_open (seg_at s segment)"
    "device_to_segments s' = device_to_segments (seg_put segment (set_closed (seg_at s segment)) s)"
    "journal_segment_id s' = journal_segment_id s"
  using assms
  by (auto simp: mark_closed_def op_defs split: if_splits)

lemma mark_empty_shape:
  assumes "mark_empty segment s = Inr s'"
  shows "contains s segment" "is_closed (seg_at s segment)"
    "device_to_segments s' = device_to_segments (seg_put segment (set_empty (seg_at s segment)) s)"
    "journal_segment_id s' = journal_segment_id s"
  using assms
  by (auto simp: mark_empty_def op_defs split: if_splits)

lemma init_closed_shape:
  assumes "init_closed h segment sq ty cat gen s = Inr s'"
  shows "contains s segment" "is_empty (seg_at s segment)"
    "device_to_segments s' = device_to_segments (seg_put segment
        ((seg_at s segment)\<lparr>state := CLOSED, seq := sq, type := ty, category := cat,
                              generation := gen, written_to := segment_size s\<rparr>) s)"
    "journal_segment_id s' = journal_segment_id s"
    "sq \<noteq> NULL_SEG_SEQ"
  using assms
  by (auto simp: init_closed_def info_init_closed_def op_defs split: if_splits)

lemma update_written_to_shape:
  assumes "update_written_to ty offset s = Inr s'"
  shows "contains s (get_segment_id offset)" "is_open (seg_at s (get_segment_id offset))"
    "device_to_segments s' = device_to_segments (seg_put (get_segment_id offset)
        ((seg_at s (get_segment_id offset))\<lparr>written_to := scast (get_segment_off offset)\<rparr>) s)"
    "journal_segment_id s' = journal_segment_id s"
  using assms
  by (auto simp: update_written_to_def as_seg_paddr_def op_defs split: if_splits)

lemma update_modify_time_shape:
  assumes "update_modify_time segment tp num s = Inr s'"
  shows "num = 0 \<Longrightarrow> s' = s"
    "num \<noteq> 0 \<Longrightarrow> contains s segment"
    "num \<noteq> 0 \<Longrightarrow> \<exists>t. device_to_segments s' = device_to_segments (seg_put segment
        ((seg_at s segment)\<lparr>modify_time := t,
             num_extents := num_extents (seg_at s segment) + num\<rparr>) s)"
    "journal_segment_id s' = journal_segment_id s"
  using assms
  by (auto simp: update_modify_time_def ceph_assert_def debug_assert_def and_then_def
      with_segment_def contains_def seg_put_def split: if_splits sum.splits)


subsection \<open>The counters as numbers of segments\<close>

lemma of_nat_count_nested_update:
  assumes "d < length xss" "i < length (xss ! d)"
  shows "(of_nat (length (filter P (concat (xss[d := (xss ! d)[i := v]])))) :: 'a::ring_1) =
         of_nat (length (filter P (concat xss))) - of_bool (P (xss ! d ! i)) + of_bool (P v)"
proof -
  have "of_nat (length (filter P (concat (xss[d := (xss ! d)[i := v]]))) + of_bool (P (xss ! d ! i)))
        = (of_nat (length (filter P (concat xss)) + of_bool (P v)) :: 'a)"
    using length_filter_concat_update [OF assms, of P v] by simp
  then show ?thesis by (simp add: algebra_simps)
qed

lemma length_concat_nested_update:
  assumes "d < length xss"
  shows "length (concat (xss[d := (xss ! d)[i := v]])) = length (concat xss)"
proof -
  have "sum_list (map length (xss[d := (xss ! d)[i := v]])) + length (xss ! d) =
        sum_list (map length xss) + length ((xss ! d)[i := v])"
    using assms by (rule sum_list_nat_update)
  then show ?thesis by (simp add: length_concat)
qed

lemmas cnt_defs = counts_ok_def count_state_def all_segments_def is_open_def is_empty_def
  is_closed_def

lemma mark_open_counts:
  assumes "counts_ok s" "mark_open segment sq ty cat gen s = Inr s'"
  shows "counts_ok s'"
  using assms
  by (auto simp: mark_open_def set_open_def op_defs cnt_defs of_nat_count_nested_update
      length_concat_nested_update split: if_splits)

lemma mark_closed_counts:
  assumes "counts_ok s" "mark_closed segment s = Inr s'"
  shows "counts_ok s'"
  using assms
  by (auto simp: mark_closed_def set_closed_def op_defs cnt_defs of_nat_count_nested_update
      length_concat_nested_update split: if_splits)

lemma mark_empty_counts:
  assumes "counts_ok s" "mark_empty segment s = Inr s'"
  shows "counts_ok s'"
  using assms
  by (auto simp: mark_empty_def set_empty_def op_defs cnt_defs of_nat_count_nested_update
      length_concat_nested_update split: if_splits)

lemma init_closed_counts:
  assumes "counts_ok s" "init_closed h segment sq ty cat gen s = Inr s'"
  shows "counts_ok s'"
  using assms
  by (auto simp: init_closed_def info_init_closed_def op_defs cnt_defs of_nat_count_nested_update
      length_concat_nested_update split: if_splits)

lemma update_written_to_counts:
  assumes "counts_ok s" "update_written_to ty offset s = Inr s'"
  shows "counts_ok s'"
  using assms
  by (auto simp: update_written_to_def as_seg_paddr_def op_defs cnt_defs of_nat_count_nested_update
      length_concat_nested_update split: if_splits)

lemma update_modify_time_counts:
  assumes "counts_ok s" "update_modify_time segment tp num s = Inr s'"
  shows "counts_ok s'"
  using assms
  by (auto simp: update_modify_time_def get_average_time_def op_defs cnt_defs of_nat_count_nested_update
      length_concat_nested_update split: if_splits)

lemma length_filter_replicate_if:
  "length (filter P (replicate n x)) = (if P x then n else 0)"
  by (induction n) auto

lemma length_filter_concat_all_Nil:
  "\<forall>xs\<in>set xss. xs = [] \<Longrightarrow> length (filter P (concat xss)) = 0"
  by (induction xss) auto

lemma length_concat_update_Nil:
  assumes "d < length xss" "xss ! d = []"
  shows "length (concat (xss[d := ys])) = length (concat xss) + length ys"
proof -
  have "sum_list (map length (xss[d := ys])) + length (xss ! d) =
        sum_list (map length xss) + length ys"
    using assms(1) by (rule sum_list_nat_update)
  with assms(2) show ?thesis by (simp add: length_concat)
qed

lemma length_filter_concat_update_Nil:
  assumes "d < length xss" "xss ! d = []"
  shows "length (filter P (concat (xss[d := ys]))) =
         length (filter P (concat xss)) + length (filter P ys)"
proof -
  let ?g = "\<lambda>xs. length (filter P xs)"
  have "sum_list (map ?g (xss[d := ys])) + ?g (xss ! d) = sum_list (map ?g xss) + ?g ys"
    using assms(1) by (rule sum_list_nat_update)
  with assms(2) show ?thesis by (simp add: length_filter_concat)
qed

lemma add_device_counts_shape:
  assumes "add_segment_manager d_id ssize nsegments sm_size s = Inr s'"
  shows "unat d_id < length (device_to_segments s)" "device_to_segments s ! unat d_id = []"
    "device_to_segments s' =
       (device_to_segments s)[unat d_id := replicate (unat (ucast nsegments :: size_t)) segment_info_init]"
    "total_segments s' = total_segments s + ucast nsegments"
    "num_empty s' = num_empty s + ucast nsegments"
    "num_open s' = num_open s" "num_closed s' = num_closed s"
    "segment_size s' = scast ssize" "segment_size s \<noteq> 0 \<Longrightarrow> segment_size s' = segment_size s"
  using assms
  by (auto simp: add_segment_manager_def add_device_def op_defs split: if_splits)

lemma add_segment_manager_counts:
  assumes "counts_ok s" "add_segment_manager d_id ssize nsegments sm_size s = Inr s'"
  shows "counts_ok s'"
proof -
  note sh = add_device_counts_shape [OF assms(2)]
  let ?n = "unat (ucast nsegments :: size_t)"
  have n: "(of_nat ?n :: size_t) = ucast nsegments" by simp
  have len: "length (all_segments s') = length (all_segments s) + ?n"
    unfolding all_segments_def sh(3) using length_concat_update_Nil [OF sh(1,2)] by simp
  have cnt: "count_state st s' = count_state st s + (if st = EMPTY then ?n else 0)" for st
    unfolding count_state_def all_segments_def sh(3)
    using length_filter_concat_update_Nil [OF sh(1,2)]
    by (simp add: length_filter_replicate_if segment_info_init_def)
  show ?thesis
    using assms(1) unfolding counts_ok_def len cnt sh(4,5,6,7)
    by (simp add: n)
qed

lemma reset_counts: "counts_ok reset"
  by (simp add: reset_def cnt_defs)

subsection \<open>No segment is written beyond its size\<close>

lemma set_concat_nested_update:
  assumes "x \<in> set (concat (xss[d := (xss ! d)[i := v]]))" "d < length xss"
  shows "x = v \<or> x \<in> set (concat xss)"
proof -
  from assms(1) obtain ys where ys: "ys \<in> set (xss[d := (xss ! d)[i := v]])" "x \<in> set ys"
    by auto
  from ys(1) have "ys = (xss ! d)[i := v] \<or> ys \<in> set xss"
    using set_update_subset_insert [of xss d "(xss ! d)[i := v]"] by auto
  then show ?thesis
  proof
    assume "ys = (xss ! d)[i := v]"
    with ys(2) have "x = v \<or> x \<in> set (xss ! d)"
      using set_update_subset_insert [of "xss ! d" i v] by auto
    with assms(2) show ?thesis by (auto dest: nth_mem)
  next
    assume "ys \<in> set xss"
    with ys(2) show ?thesis by auto
  qed
qed

lemma written_ok_put:
  assumes "written_ok s" "device_to_segments s' = device_to_segments (seg_put i v s)"
    "segment_size s' = segment_size s" "written_to v \<le> segment_size s" "contains s i"
  shows "written_ok s'"
  unfolding written_ok_def
proof
  fix info assume "info \<in> set (all_segments s')"
  then have "info \<in> set (concat ((device_to_segments s)
      [unat (device_id i) := (device_to_segments s ! unat (device_id i))
         [unat (device_segment_id i) := v]]))"
    using assms(2) by (simp add: all_segments_def seg_put_def)
  moreover have "unat (device_id i) < length (device_to_segments s)"
    using assms(5) by (simp add: contains_def)
  ultimately have "info = v \<or> info \<in> set (concat (device_to_segments s))"
    by (rule set_concat_nested_update)
  then show "written_to info \<le> segment_size s'"
    using assms(1,3,4) by (auto simp: written_ok_def all_segments_def)
qed

lemma mark_open_segment_size: "mark_open segment sq ty cat gen s = Inr s' \<Longrightarrow> segment_size s' = segment_size s"
  by (auto simp: mark_open_def set_open_def op_defs split: if_splits)

lemma mark_closed_segment_size: "mark_closed segment s = Inr s' \<Longrightarrow> segment_size s' = segment_size s"
  by (auto simp: mark_closed_def op_defs split: if_splits)

lemma mark_empty_segment_size: "mark_empty segment s = Inr s' \<Longrightarrow> segment_size s' = segment_size s"
  by (auto simp: mark_empty_def op_defs split: if_splits)

lemma init_closed_segment_size: "init_closed h segment sq ty cat gen s = Inr s' \<Longrightarrow> segment_size s' = segment_size s"
  by (auto simp: init_closed_def info_init_closed_def op_defs split: if_splits)

lemma update_written_to_segment_size:
  assumes "update_written_to ty offset s = Inr s'"
  shows "segment_size s' = segment_size s"
    "(scast (get_segment_off offset) :: size_t) \<le> segment_size s"
  using assms
  by (auto simp: update_written_to_def as_seg_paddr_def op_defs split: if_splits)

lemma update_modify_time_segment_size: "update_modify_time segment tp num s = Inr s' \<Longrightarrow> segment_size s' = segment_size s"
  by (auto simp: update_modify_time_def get_average_time_def op_defs split: if_splits)

lemma written_ok_seg_at: "written_ok s \<Longrightarrow> contains s i \<Longrightarrow> written_to (seg_at s i) \<le> segment_size s"
  using seg_at_mem by (auto simp: written_ok_def)

lemma mark_open_written_ok:
  assumes "written_ok s" "mark_open segment sq ty cat gen s = Inr s'"
  shows "written_ok s'"
  using assms(1) mark_open_shape(3) [OF assms(2)] mark_open_segment_size [OF assms(2)]
  by (rule written_ok_put) (simp_all add: mark_open_shape(1) [OF assms(2)])

lemma mark_closed_written_ok:
  assumes "written_ok s" "mark_closed segment s = Inr s'"
  shows "written_ok s'"
  using assms(1) mark_closed_shape(3) [OF assms(2)] mark_closed_segment_size [OF assms(2)]
  by (rule written_ok_put)
    (simp_all add: mark_closed_shape(1) [OF assms(2)] set_closed_def
      written_ok_seg_at [OF assms(1)])

lemma mark_empty_written_ok:
  assumes "written_ok s" "mark_empty segment s = Inr s'"
  shows "written_ok s'"
  using assms(1) mark_empty_shape(3) [OF assms(2)] mark_empty_segment_size [OF assms(2)]
  by (rule written_ok_put) (simp_all add: mark_empty_shape(1) [OF assms(2)] set_empty_def)

lemma init_closed_written_ok:
  assumes "written_ok s" "init_closed h segment sq ty cat gen s = Inr s'"
  shows "written_ok s'"
  using assms(1) init_closed_shape(3) [OF assms(2)] init_closed_segment_size [OF assms(2)]
  by (rule written_ok_put) (simp_all add: init_closed_shape(1) [OF assms(2)])

lemma update_written_to_written_ok:
  assumes "written_ok s" "update_written_to ty offset s = Inr s'"
  shows "written_ok s'"
  using assms(1) update_written_to_shape(3) [OF assms(2)]
    update_written_to_segment_size(1) [OF assms(2)]
  by (rule written_ok_put)
    (simp_all add: update_written_to_shape(1) [OF assms(2)]
      update_written_to_segment_size(2) [OF assms(2)])

lemma update_modify_time_written_ok:
  assumes "written_ok s" "update_modify_time segment tp num s = Inr s'"
  shows "written_ok s'"
proof (cases "num = 0")
  case True
  with update_modify_time_shape(1) [OF assms(2)] assms(1) show ?thesis by simp
next
  case False
  from update_modify_time_shape(3) [OF assms(2) False] obtain t where
    t: "device_to_segments s' = device_to_segments (seg_put segment
        ((seg_at s segment)\<lparr>modify_time := t,
             num_extents := num_extents (seg_at s segment) + num\<rparr>) s)" ..
  from assms(1) t update_modify_time_segment_size [OF assms(2)] show ?thesis
    by (rule written_ok_put)
      (simp_all add: update_modify_time_shape(2) [OF assms(2) False]
        written_ok_seg_at [OF assms(1)])
qed

lemma set_concat_update_Nil:
  assumes "x \<in> set (concat (xss[d := ys]))"
  shows "x \<in> set ys \<or> x \<in> set (concat xss)"
proof -
  from assms obtain zs where zs: "zs \<in> set (xss[d := ys])" "x \<in> set zs" by auto
  from zs(1) have "zs = ys \<or> zs \<in> set xss"
    using set_update_subset_insert [of xss d ys] by auto
  with zs(2) show ?thesis by auto
qed

lemma add_segment_manager_written_ok:
  assumes "written_ok s" "size_ok s" "add_segment_manager d_id ssize nsegments sm_size s = Inr s'"
  shows "written_ok s'"
  unfolding written_ok_def
proof
  note sh = add_device_counts_shape [OF assms(3)]
  fix info assume "info \<in> set (all_segments s')"
  then have "info \<in> set (replicate (unat (ucast nsegments :: size_t)) segment_info_init)
      \<or> info \<in> set (concat (device_to_segments s))"
    unfolding all_segments_def sh(3) by (rule set_concat_update_Nil)
  then show "written_to info \<le> segment_size s'"
  proof
    assume "info \<in> set (replicate (unat (ucast nsegments :: size_t)) segment_info_init)"
    then show ?thesis by (simp add: segment_info_init_def)
  next
    assume m: "info \<in> set (concat (device_to_segments s))"
    with assms(2) have "segment_size s \<noteq> 0" by (auto simp: size_ok_def all_segments_def)
    from sh(9) [OF this] m assms(1) show ?thesis by (auto simp: written_ok_def all_segments_def)
  qed
qed

lemma reset_written_ok: "written_ok reset"
  by (simp add: reset_def written_ok_def all_segments_def)

lemma reachable_counts_inv: "reachable s \<Longrightarrow> counts_ok s \<and> written_ok s"
proof (induction rule: reachable.induct)
  case reach_reset
  show ?case by (simp add: reset_counts reset_written_ok)
next
  case (reach_add_segment_manager s d_id ssize nsegments sm_size s')
  then show ?case
    using add_segment_manager_counts add_segment_manager_written_ok reachable_directory_inv
    by blast
next
  case (reach_init_closed s head_is_null segment sq ty cat gen s')
  then show ?case using init_closed_counts init_closed_written_ok by blast
next
  case (reach_mark_open s segment sq ty cat gen s')
  then show ?case using mark_open_counts mark_open_written_ok by blast
next
  case (reach_mark_closed s segment s')
  then show ?case using mark_closed_counts mark_closed_written_ok by blast
next
  case (reach_mark_empty s segment s')
  then show ?case using mark_empty_counts mark_empty_written_ok by blast
next
  case (reach_update_written_to s ty offset s')
  then show ?case using update_written_to_counts update_written_to_written_ok by blast
next
  case (reach_update_modify_time s segment tp num s')
  then show ?case using update_modify_time_counts update_modify_time_written_ok by blast
qed

lemma of_nat_unat_diff:
  fixes a b :: "'a::len word"
  assumes "b \<le> a"
  shows "of_nat (unat a - unat b) = a - b"
proof -
  have "unat (a - b) = unat a - unat b" using assms by (rule unat_sub)
  then have "of_nat (unat a - unat b) = (of_nat (unat (a - b)) :: 'a word)" by simp
  then show ?thesis by simp
qed

lemma sum_avail_of_nat:
  fixes S :: size_t
  assumes "\<forall>info \<in> set xs. written_to info \<le> S"
  shows "sum_list (map (open_avail S) xs) =
         of_nat (sum_list (map (\<lambda>info. if is_open info then unat S - unat (written_to info) else 0) xs))"
  using assms
  by (induction xs) (simp_all add: open_avail_def of_nat_unat_diff)

lemma reachable_counters_exact:
  assumes "reachable s"
  shows "counters_exact s"
proof -
  from assms have a: "aggregates_ok s" by (simp add: reachable_directory_inv)
  from assms have c: "counts_ok s" and w: "written_ok s" by (simp_all add: reachable_counts_inv)
  have "avail_bytes_in_open s = sum_avail_in_open s" using a by (simp add: aggregates_ok_def)
  also have "\<dots> = of_nat (sum_avail_in_open_nat s)"
    unfolding sum_avail_in_open_def sum_avail_in_open_nat_def
    using w by (intro sum_avail_of_nat) (simp add: written_ok_def)
  finally show ?thesis using c by (simp add: counters_exact_def counts_ok_def)
qed

text \<open>
  Claim C1. In every state of the segment directory reached from \<^verbatim>\<open>reset\<close> by calls
  of \<^verbatim>\<open>add_segment_manager\<close>, \<^verbatim>\<open>init_closed\<close>, \<^verbatim>\<open>mark_open\<close>, \<^verbatim>\<open>mark_closed\<close>,
  \<^verbatim>\<open>mark_empty\<close>, \<^verbatim>\<open>update_written_to\<close> and \<^verbatim>\<open>update_modify_time\<close> that return,
  \<open>num_empty + num_open + num_closed = total_segments\<close>, \<open>avail_bytes_in_open\<close> is
  the sum over the OPEN segments of \<open>segment_size - written_to\<close>, and the available
  bytes are \<open>num_empty * segment_size\<close> plus that sum (all in \<^verbatim>\<open>std::size_t\<close>
  arithmetic). In such a state each counter is moreover the \<^verbatim>\<open>std::size_t\<close> value of
  what it counts: \<open>total_segments\<close> of the number of segments, \<open>num_empty\<close>,
  \<open>num_open\<close> and \<open>num_closed\<close> of the numbers of segments in each state, and
  \<open>avail_bytes_in_open\<close> of the sum taken over the natural numbers. Each of the five
  operations of the claim, when it returns, preserves the three equations.
\<close>

theorem aggregate_counters_invariant:
  "(reachable s \<longrightarrow> aggregates_ok s \<and> counters_exact s) \<and>
   (aggregates_ok s \<and> init_closed head_is_null segment sq ty cat gen s = Inr s1 \<longrightarrow>
      aggregates_ok s1) \<and>
   (aggregates_ok s \<and> mark_open segment sq ty cat gen s = Inr s2 \<longrightarrow> aggregates_ok s2) \<and>
   (aggregates_ok s \<and> mark_closed segment s = Inr s3 \<longrightarrow> aggregates_ok s3) \<and>
   (aggregates_ok s \<and> mark_empty segment s = Inr s4 \<longrightarrow> aggregates_ok s4) \<and>
   (aggregates_ok s \<and> update_written_to ty offset s = Inr s5 \<longrightarrow> aggregates_ok s5)"
proof (intro conjI impI)
  assume "reachable s"
  then show "aggregates_ok s" by (simp add: reachable_directory_inv)
next
  assume "reachable s"
  then show "counters_exact s" by (rule reachable_counters_exact)
next
  assume "aggregates_ok s \<and> init_closed head_is_null segment sq ty cat gen s = Inr s1"
  then show "aggregates_ok s1" by (blast intro: init_closed_aggregates)
next
  assume "aggregates_ok s \<and> mark_open segment sq ty cat gen s = Inr s2"
  then show "aggregates_ok s2" by (blast intro: mark_open_aggregates)
next
  assume "aggregates_ok s \<and> mark_closed segment s = Inr s3"
  then show "aggregates_ok s3" by (blast intro: mark_closed_aggregates)
next
  assume "aggregates_ok s \<and> mark_empty segment s = Inr s4"
  then show "aggregates_ok s4" by (blast intro: mark_empty_aggregates)
next
  assume "aggregates_ok s \<and> update_written_to ty offset s = Inr s5"
  then show "aggregates_ok s5" by (blast intro: update_written_to_aggregates)
qed

text \<open>
  A run on one device of four segments of 4096 bytes: segment 1 is found closed at
  mount, segment 0 is opened for the journal, written up to offset 512, closed and
  released.
\<close>

theorem aggregate_counters_invariant_witness:
  "\<exists>s1 s2 s3 s4 s5 s6.
     add_segment_manager 0 4096 4 16384 reset = Inr s1 \<and>
     init_closed (\<lambda>_. True) 1 5 OOL DATA 0 s1 = Inr s2 \<and>
     mark_open 0 1 JOURNAL METADATA 0 s2 = Inr s3 \<and>
     update_written_to JOURNAL (make_seg_paddr 0 512) s3 = Inr s4 \<and>
     mark_closed 0 s4 = Inr s5 \<and>
     mark_empty 0 s5 = Inr s6 \<and>
     reachable s1 \<and> aggregates_ok s1 \<and> aggregates_ok s2 \<and> aggregates_ok s3 \<and>
     aggregates_ok s4 \<and> aggregates_ok s5 \<and> aggregates_ok s6 \<and>
     reachable s4 \<and> counters_exact s4"
proof -
  define s1 where "s1 = projr (add_segment_manager 0 4096 4 16384 reset)"
  define s2 where "s2 = projr (init_closed (\<lambda>_. True) 1 5 OOL DATA 0 s1)"
  define s3 where "s3 = projr (mark_open 0 1 JOURNAL METADATA 0 s2)"
  define s4 where "s4 = projr (update_written_to JOURNAL (make_seg_paddr 0 512) s3)"
  define s5 where "s5 = projr (mark_closed 0 s4)"
  define s6 where "s6 = projr (mark_empty 0 s5)"
  have 1: "add_segment_manager 0 4096 4 16384 reset = Inr s1"
    unfolding s1_def by (simp add: eval_defs)
  have 2: "init_closed (\<lambda>_. True) 1 5 OOL DATA 0 s1 = Inr s2"
    unfolding s2_def s1_def by (simp add: eval_defs)
  have 3: "mark_open 0 1 JOURNAL METADATA 0 s2 = Inr s3"
    unfolding s3_def s2_def s1_def by (simp add: eval_defs)
  have 4: "update_written_to JOURNAL (make_seg_paddr 0 512) s3 = Inr s4"
    unfolding s4_def s3_def s2_def s1_def by (simp add: eval_defs)
  have 5: "mark_closed 0 s4 = Inr s5"
    unfolding s5_def s4_def s3_def s2_def s1_def by (simp add: eval_defs)
  have 6: "mark_empty 0 s5 = Inr s6"
    unfolding s6_def s5_def s4_def s3_def s2_def s1_def by (simp add: eval_defs)
  have r1: "reachable s1"
    using reach_add_segment_manager [OF reach_reset 1] .
  have a1: "aggregates_ok s1"
    using aggregate_counters_invariant [of s1] r1 by blast
  have a2: "aggregates_ok s2"
    using aggregate_counters_invariant [of s1 "\<lambda>_. True" 1 5 OOL DATA 0 s2] a1 2 by blast
  have a3: "aggregates_ok s3"
    using aggregate_counters_invariant [of s2 _ 0 1 JOURNAL METADATA 0 _ s3] a2 3 by blast
  have a4: "aggregates_ok s4"
    using aggregate_counters_invariant [of s3 _ _ _ JOURNAL _ _ _ _ _ _ "make_seg_paddr 0 512" s4] a3 4 by blast
  have a5: "aggregates_ok s5"
    using aggregate_counters_invariant [of s4 _ 0 _ _ _ _ _ _ s5] a4 5 by blast
  have a6: "aggregates_ok s6"
    using aggregate_counters_invariant [of s5 _ 0 _ _ _ _ _ _ _ s6] a5 6 by blast
  have r4: "reachable s4"
    using reach_update_written_to [OF reach_mark_open [OF reach_init_closed [OF r1 2] 3] 4] .
  have c4: "counters_exact s4"
    using aggregate_counters_invariant [of s4] r4 by blast
  show ?thesis
    using 1 2 3 4 5 6 r1 a1 a2 a3 a4 a5 a6 r4 c4 by blast
qed

section \<open>Proofs: journal segments\<close>

subsection \<open>The recorded journal segment\<close>














subsection \<open>Sequence numbers\<close>










subsection \<open>The invariants along a run\<close>









section \<open>Proofs: a device whose last segment has the id NULL\_SEG\_ID\<close>
















section \<open>Proofs: the detailed tracker's bitmap\<close>

lemma allocate_blocks_Inr:
  assumes "\<forall>i \<in> set is. i < length bm" "distinct is"
  shows "\<exists>bm'. allocate_blocks is err bm = Inr (err \<or> (\<exists>i \<in> set is. bm ! i), bm') \<and>
           length bm' = length bm \<and> (\<forall>j < length bm. bm' ! j = (j \<in> set is \<or> bm ! j))"
  using assms
proof (induction "is" arbitrary: err bm)
  case Nil
  then show ?case by simp
next
  case (Cons i "is")
  let ?bm = "bm[i := True]"
  have "\<forall>k \<in> set is. k < length ?bm" "distinct is" using Cons.prems by auto
  from Cons.IH [OF this, of "err \<or> bm ! i"] obtain bm' where
    r: "allocate_blocks is (err \<or> bm ! i) ?bm = Inr ((err \<or> bm ! i) \<or> (\<exists>k \<in> set is. ?bm ! k), bm')"
    and l: "length bm' = length ?bm" and b: "\<forall>j < length ?bm. bm' ! j = (j \<in> set is \<or> ?bm ! j)"
    by blast
  have e: "(\<exists>k \<in> set is. ?bm ! k) = (\<exists>k \<in> set is. bm ! k)"
    using Cons.prems by (auto simp: nth_list_update)
  have "\<forall>j < length bm. bm' ! j = (j \<in> set (i # is) \<or> bm ! j)"
    using b Cons.prems by (auto simp: nth_list_update)
  then show ?case
    using r l e Cons.prems by auto
qed

lemma release_blocks_Inr:
  assumes "\<forall>i \<in> set is. i < length bm" "distinct is"
  shows "\<exists>bm'. release_blocks is err bm = Inr (err \<or> (\<exists>i \<in> set is. \<not> bm ! i), bm') \<and>
           length bm' = length bm \<and> (\<forall>j < length bm. bm' ! j = (j \<notin> set is \<and> bm ! j))"
  using assms
proof (induction "is" arbitrary: err bm)
  case Nil
  then show ?case by simp
next
  case (Cons i "is")
  let ?bm = "bm[i := False]"
  have "\<forall>k \<in> set is. k < length ?bm" "distinct is" using Cons.prems by auto
  from Cons.IH [OF this, of "err \<or> \<not> bm ! i"] obtain bm' where
    r: "release_blocks is (err \<or> \<not> bm ! i) ?bm = Inr ((err \<or> \<not> bm ! i) \<or> (\<exists>k \<in> set is. \<not> ?bm ! k), bm')"
    and l: "length bm' = length ?bm" and b: "\<forall>j < length ?bm. bm' ! j = (j \<notin> set is \<and> ?bm ! j)"
    by blast
  have e: "(\<exists>k \<in> set is. \<not> ?bm ! k) = (\<exists>k \<in> set is. \<not> bm ! k)"
    using Cons.prems by (auto simp: nth_list_update)
  have "\<forall>j < length bm. bm' ! j = (j \<notin> set (i # is) \<and> bm ! j)"
    using b Cons.prems by (auto simp: nth_list_update)
  then show ?case
    using r l e Cons.prems by auto
qed

lemma allocate_blocks_in_range:
  "allocate_blocks is err bm = Inr r \<Longrightarrow> \<forall>i \<in> set is. i < length bm"
  by (induction "is" arbitrary: err bm) (fastforce split: if_splits)+

lemma release_blocks_in_range:
  "release_blocks is err bm = Inr r \<Longrightarrow> \<forall>i \<in> set is. i < length bm"
  by (induction "is" arbitrary: err bm) (fastforce split: if_splits)+


text \<open>What a call of allocate or release that is set up properly returns.\<close>

lemma allocate_result:
  assumes "block_size \<noteq> 0" "offset mod block_size = 0" "len mod block_size = 0"
    "\<forall>i \<in> set (block_range offset len block_size). i < length (bitmap m)"
  shows "\<exists>bm'. allocate segment offset len block_size m =
           Inr (used m + ucast len,
                (\<exists>i \<in> set (block_range offset len block_size). bitmap m ! i),
                m\<lparr>used := used m + ucast len, bitmap := bm'\<rparr>) \<and>
           length bm' = length (bitmap m) \<and>
           (\<forall>j < length (bitmap m).
              bm' ! j = (j \<in> set (block_range offset len block_size) \<or> bitmap m ! j))"
proof -
  have "distinct (block_range offset len block_size)" by (simp add: block_range_def)
  from allocate_blocks_Inr [OF assms(4) this, of False] obtain bm' where
    "allocate_blocks (block_range offset len block_size) False (bitmap m) =
       Inr (False \<or> (\<exists>i \<in> set (block_range offset len block_size). bitmap m ! i), bm')"
    "length bm' = length (bitmap m)"
    "\<forall>j < length (bitmap m). bm' ! j = (j \<in> set (block_range offset len block_size) \<or> bitmap m ! j)"
    by auto
  then show ?thesis
    using assms(1-3)
    by (intro exI [of _ bm'])
       (simp add: allocate_def debug_assert_def and_then_def update_usage_def
          block_range_def [symmetric] Let_def)
qed

lemma release_result:
  assumes "block_size \<noteq> 0" "offset mod block_size = 0" "len mod block_size = 0"
    "\<forall>i \<in> set (block_range offset len block_size). i < length (bitmap m)"
  shows "\<exists>bm'. release segment offset len block_size m =
           Inr (used m - ucast len,
                (\<exists>i \<in> set (block_range offset len block_size). \<not> bitmap m ! i),
                m\<lparr>used := used m - ucast len, bitmap := bm'\<rparr>) \<and>
           length bm' = length (bitmap m) \<and>
           (\<forall>j < length (bitmap m).
              bm' ! j = (j \<notin> set (block_range offset len block_size) \<and> bitmap m ! j))"
proof -
  have "distinct (block_range offset len block_size)" by (simp add: block_range_def)
  from release_blocks_Inr [OF assms(4) this, of False] obtain bm' where
    "release_blocks (block_range offset len block_size) False (bitmap m) =
       Inr (False \<or> (\<exists>i \<in> set (block_range offset len block_size). \<not> bitmap m ! i), bm')"
    "length bm' = length (bitmap m)"
    "\<forall>j < length (bitmap m). bm' ! j = (j \<notin> set (block_range offset len block_size) \<and> bitmap m ! j)"
    by auto
  then show ?thesis
    using assms(1-3)
    by (intro exI [of _ bm'])
       (simp add: release_def debug_assert_def and_then_def update_usage_def
          block_range_def [symmetric] Let_def)
qed

lemma allocate_blocks_no_abort: "allocate_blocks is err bm \<noteq> Inl (Abort msg)"
  by (induction "is" arbitrary: err bm) auto

lemma release_blocks_no_abort: "release_blocks is err bm \<noteq> Inl (Abort msg)"
  by (induction "is" arbitrary: err bm) auto

lemma allocate_no_abort: "allocate segment offset len block_size m \<noteq> Inl (Abort msg)"
  using allocate_blocks_no_abort [of "block_range offset len block_size" False "bitmap m" msg]
  by (auto simp: allocate_def debug_assert_def and_then_def update_usage_def block_range_def
      Let_def split: sum.splits prod.splits)

lemma release_no_abort: "release segment offset len block_size m \<noteq> Inl (Abort msg)"
  using release_blocks_no_abort [of "block_range offset len block_size" False "bitmap m" msg]
  by (auto simp: release_def debug_assert_def and_then_def update_usage_def block_range_def
      Let_def split: sum.splits prod.splits)

text \<open>
  Claim C6 fails as stated: allocating a block that is already set, and releasing a
  block that is clear, return normally. The flag in the result records that the error
  was logged.
\<close>

theorem allocate_on_set_block_counterexample:
  "allocate 0 0 4096 4096 \<lparr>used = 4096, bitmap = [True]\<rparr> =
     Inr (8192, True, \<lparr>used = 8192, bitmap = [True]\<rparr>) \<and>
   release 0 0 4096 4096 \<lparr>used = 0, bitmap = [False]\<rparr> =
     Inr (- 4096, True, \<lparr>used = - 4096, bitmap = [False]\<rparr>)"
  by (simp add: allocate_def release_def debug_assert_def and_then_def update_usage_def Let_def)

text \<open>
  Claim C6, amended. For a block-aligned range inside the bitmap, \<^verbatim>\<open>allocate\<close> sets
  every bit of the range and adds \<open>len\<close> to the usage, and \<^verbatim>\<open>release\<close> clears every
  bit and subtracts \<open>len\<close>, whatever the bits were before: a bit found set by
  \<^verbatim>\<open>allocate\<close> (found clear by \<^verbatim>\<open>release\<close>) is logged as an error and the call
  goes on. Neither call ever ends in a \<^verbatim>\<open>ceph_assert\<close> or \<^verbatim>\<open>ceph_abort\<close>.
\<close>

theorem allocate_release_log_and_continue:
  "block_size \<noteq> 0 \<and> offset mod block_size = 0 \<and> len mod block_size = 0 \<and>
   (\<forall>i \<in> set (block_range offset len block_size). i < length (bitmap m)) \<longrightarrow>
   (\<exists>bm'. allocate segment offset len block_size m =
           Inr (used m + ucast len,
                (\<exists>i \<in> set (block_range offset len block_size). bitmap m ! i),
                m\<lparr>used := used m + ucast len, bitmap := bm'\<rparr>) \<and>
           length bm' = length (bitmap m) \<and>
           (\<forall>j < length (bitmap m).
              bm' ! j = (j \<in> set (block_range offset len block_size) \<or> bitmap m ! j))) \<and>
   (\<exists>bm'. release segment offset len block_size m =
           Inr (used m - ucast len,
                (\<exists>i \<in> set (block_range offset len block_size). \<not> bitmap m ! i),
                m\<lparr>used := used m - ucast len, bitmap := bm'\<rparr>) \<and>
           length bm' = length (bitmap m) \<and>
           (\<forall>j < length (bitmap m).
              bm' ! j = (j \<notin> set (block_range offset len block_size) \<and> bitmap m ! j))) \<and>
   allocate segment offset len block_size m \<noteq> Inl (Abort msg) \<and>
   release segment offset len block_size m \<noteq> Inl (Abort msg)"
proof (intro impI conjI; (elim conjE)?)
  assume "block_size \<noteq> 0" "offset mod block_size = 0" "len mod block_size = 0"
    "\<forall>i \<in> set (block_range offset len block_size). i < length (bitmap m)"
  then show "\<exists>bm'. allocate segment offset len block_size m =
           Inr (used m + ucast len,
                (\<exists>i \<in> set (block_range offset len block_size). bitmap m ! i),
                m\<lparr>used := used m + ucast len, bitmap := bm'\<rparr>) \<and>
           length bm' = length (bitmap m) \<and>
           (\<forall>j < length (bitmap m).
              bm' ! j = (j \<in> set (block_range offset len block_size) \<or> bitmap m ! j))"
    by (rule allocate_result)
next
  assume "block_size \<noteq> 0" "offset mod block_size = 0" "len mod block_size = 0"
    "\<forall>i \<in> set (block_range offset len block_size). i < length (bitmap m)"
  then show "\<exists>bm'. release segment offset len block_size m =
           Inr (used m - ucast len,
                (\<exists>i \<in> set (block_range offset len block_size). \<not> bitmap m ! i),
                m\<lparr>used := used m - ucast len, bitmap := bm'\<rparr>) \<and>
           length bm' = length (bitmap m) \<and>
           (\<forall>j < length (bitmap m).
              bm' ! j = (j \<notin> set (block_range offset len block_size) \<and> bitmap m ! j))"
    by (rule release_result)
next
  show "allocate segment offset len block_size m \<noteq> Inl (Abort msg)"
    by (rule allocate_no_abort)
next
  show "release segment offset len block_size m \<noteq> Inl (Abort msg)"
    by (rule release_no_abort)
qed

theorem allocate_release_log_and_continue_witness:
  "block_range 4096 8192 4096 = [1, 2] \<and>
   (\<exists>r. allocate 0 4096 8192 4096 \<lparr>used = 4096, bitmap = [False, True, False, False]\<rparr> = Inr r) \<and>
   (\<exists>r. release 0 4096 8192 4096 \<lparr>used = 4096, bitmap = [False, True, False, False]\<rparr> = Inr r)"
proof -
  let ?m = "\<lparr>used = 4096, bitmap = [False, True, False, False]\<rparr>"
  have r: "block_range 4096 8192 4096 = [1, 2]"
    by (simp add: block_range_def upt_rec)
  have h: "(4096 :: extent_len_t) \<noteq> 0 \<and> (4096 :: seastore_off_t) mod 4096 = 0 \<and>
   (8192 :: extent_len_t) mod 4096 = 0 \<and>
   (\<forall>i \<in> set (block_range 4096 8192 4096). i < length (bitmap ?m))"
    by (simp add: r)
  note c = mp [OF allocate_release_log_and_continue [of 4096 4096 8192 ?m 0 "[]"] h]
  from c have "\<exists>r. allocate 0 4096 8192 4096 ?m = Inr r"
    by (elim conjE exE) (rule exI)
  moreover from c have "\<exists>r. release 0 4096 8192 4096 ?m = Inr r"
    by (elim conjE exE) (rule exI)
  ultimately show ?thesis using r by simp
qed

section \<open>Proofs: allocate followed by release\<close>

lemma allocate_Inr_pre:
  assumes "allocate segment offset len block_size m = Inr r"
  shows "block_size \<noteq> 0" "offset mod block_size = 0" "len mod block_size = 0"
    "\<forall>i \<in> set (block_range offset len block_size). i < length (bitmap m)"
proof -
  from assms show "block_size \<noteq> 0" "offset mod block_size = 0" "len mod block_size = 0"
    by (auto simp: allocate_def debug_assert_def split: if_splits)
  from assms obtain q where
    "allocate_blocks (block_range offset len block_size) False (bitmap m) = Inr q"
    by (auto simp: allocate_def debug_assert_def and_then_def block_range_def Let_def
        split: if_splits sum.splits)
  then show "\<forall>i \<in> set (block_range offset len block_size). i < length (bitmap m)"
    by (rule allocate_blocks_in_range)
qed

lemma sm_contains_put [simp]: "sm_contains (sm_put i v xss) j = sm_contains xss j"
  by (cases "unat (device_id j) = unat (device_id i)")
     (auto simp: sm_contains_def sm_put_def)

lemma sm_at_put_same: "sm_contains xss i \<Longrightarrow> sm_at (sm_put i v xss) i = v"
  by (simp add: sm_contains_def sm_put_def sm_at_def)

lemma with_entry_Inr: "with_entry xss i k = Inr r \<Longrightarrow> sm_contains xss i \<and> k (sm_at xss i) = Inr r"
  by (auto simp: with_entry_def debug_assert_def sm_contains_def split: if_splits)

lemma with_entry_contains: "sm_contains xss i \<Longrightarrow> with_entry xss i k = k (sm_at xss i)"
  by (auto simp: with_entry_def debug_assert_def sm_contains_def)

lemma allocate_then_release:
  assumes a: "allocate segment offset len block_size m = Inr (r1, e1, m1)"
    and r: "release segment offset len block_size m1 = Inr (r2, e2, m2)"
  shows "used m2 = used m"
    "bitmap m2 = bitmap m \<longleftrightarrow> (\<forall>i \<in> set (block_range offset len block_size). \<not> bitmap m ! i)"
proof -
  let ?R = "block_range offset len block_size"
  note pre = allocate_Inr_pre [OF a]
  from allocate_result [OF pre, of segment] a obtain bm1 where
    m1: "m1 = m\<lparr>used := used m + ucast len, bitmap := bm1\<rparr>"
    and l1: "length bm1 = length (bitmap m)"
    and b1: "\<forall>j < length (bitmap m). bm1 ! j = (j \<in> set ?R \<or> bitmap m ! j)"
    by auto
  have in1: "\<forall>i \<in> set ?R. i < length (bitmap m1)" using pre(4) l1 m1 by simp
  from release_result [OF pre(1-3) in1, of segment] r obtain bm2 where
    m2: "m2 = m1\<lparr>used := used m1 - ucast len, bitmap := bm2\<rparr>"
    and l2: "length bm2 = length (bitmap m1)"
    and b2: "\<forall>j < length (bitmap m1). bm2 ! j = (j \<notin> set ?R \<and> bitmap m1 ! j)"
    by auto
  show "used m2 = used m" using m1 m2 by simp
  have bits: "\<forall>j < length (bitmap m). bm2 ! j = (j \<notin> set ?R \<and> bitmap m ! j)"
    using b1 b2 l1 m1 by auto
  have len: "length bm2 = length (bitmap m)" using l1 l2 m1 by simp
  show "bitmap m2 = bitmap m \<longleftrightarrow> (\<forall>i \<in> set ?R. \<not> bitmap m ! i)"
  proof
    assume "bitmap m2 = bitmap m"
    then have "bm2 = bitmap m" using m2 by simp
    with bits pre(4) show "\<forall>i \<in> set ?R. \<not> bitmap m ! i" by auto
  next
    assume c: "\<forall>i \<in> set ?R. \<not> bitmap m ! i"
    have "bm2 = bitmap m"
      using len bits c by (auto intro!: nth_equalityI)
    then show "bitmap m2 = bitmap m" using m2 by simp
  qed
qed

lemma simple_update_usage_Inr:
  assumes "simple_update_usage segment delta lbs = Inr (r, t)"
  shows "sm_contains lbs segment" "r = sm_at lbs segment + delta"
    "t = SpaceTrackerSimple (sm_put segment (sm_at lbs segment + delta) lbs)"
  using assms
  by (auto simp: simple_update_usage_def debug_assert_def dest!: with_entry_Inr split: if_splits)

lemma roundtrip_simple:
  assumes "tracker_allocate segment offset len (SpaceTrackerSimple lbs) = Inr (r1, t1)"
    "tracker_release segment offset len t1 = Inr (r2, t2)"
  shows "get_usage t2 segment = get_usage (SpaceTrackerSimple lbs) segment"
    "tracker_bitmap t2 segment = None"
proof -
  note a = simple_update_usage_Inr [OF assms(1) [simplified]]
  from assms(2) a(3) have
    "simple_update_usage segment (- ucast len) (sm_put segment (sm_at lbs segment + ucast len) lbs)
       = Inr (r2, t2)" by simp
  note b = simple_update_usage_Inr [OF this]
  from b(3) a(1) show "get_usage t2 segment = get_usage (SpaceTrackerSimple lbs) segment"
    by (simp add: with_entry_contains sm_at_put_same)
  from b(3) show "tracker_bitmap t2 segment = None" by simp
qed

lemma detailed_Inr:
  assumes "with_entry su segment (\<lambda>m.
     if \<not> unat (device_id segment) < length bs
     then Inl (Undefined msg)
     else and_then (f m) (\<lambda>(ret, err, m'). Inr (ret, SpaceTrackerDetailed (sm_put segment m' su) bs)))
     = Inr (r, t)"
  shows "sm_contains su segment"
    "\<exists>e m'. f (sm_at su segment) = Inr (r, e, m') \<and> t = SpaceTrackerDetailed (sm_put segment m' su) bs"
  using assms
  by (auto simp: and_then_def dest!: with_entry_Inr split: if_splits sum.splits)

lemma roundtrip_detailed:
  assumes "tracker_allocate segment offset len (SpaceTrackerDetailed su bs) = Inr (r1, t1)"
    "tracker_release segment offset len t1 = Inr (r2, t2)"
  shows "get_usage t2 segment = get_usage (SpaceTrackerDetailed su bs) segment"
    "tracker_bitmap t2 segment = Some (bitmap (sm_at su segment)) \<longleftrightarrow>
       (\<forall>i \<in> set (block_range offset len (bs ! unat (device_id segment))).
          \<not> bitmap (sm_at su segment) ! i)"
proof -
  let ?bs = "bs ! unat (device_id segment)"
  note a = detailed_Inr [OF assms(1) [simplified]]
  from a(2) obtain e1 m1 where
    a1: "allocate (device_segment_id segment) offset len ?bs (sm_at su segment) = Inr (r1, e1, m1)"
    and t1: "t1 = SpaceTrackerDetailed (sm_put segment m1 su) bs" by blast
  note b = detailed_Inr [OF assms(2) [unfolded t1, simplified]]
  from b(2) obtain e2 m2 where
    b1: "release (device_segment_id segment) offset len ?bs (sm_at (sm_put segment m1 su) segment)
           = Inr (r2, e2, m2)"
    and t2: "t2 = SpaceTrackerDetailed (sm_put segment m2 (sm_put segment m1 su)) bs" by blast
  from b1 a(1) have b2: "release (device_segment_id segment) offset len ?bs m1 = Inr (r2, e2, m2)"
    by (simp add: sm_at_put_same)
  note rt = allocate_then_release [OF a1 b2]
  show "get_usage t2 segment = get_usage (SpaceTrackerDetailed su bs) segment"
    using t2 a(1) rt(1) by (simp add: with_entry_contains sm_at_put_same map_get_usage_def)
  show "tracker_bitmap t2 segment = Some (bitmap (sm_at su segment)) \<longleftrightarrow>
       (\<forall>i \<in> set (block_range offset len ?bs). \<not> bitmap (sm_at su segment) ! i)"
    using t2 a(1) rt(2) by (simp add: sm_at_put_same)
qed

text \<open>
  Claim C7 fails as stated: the detailed tracker's bitmap does not return to its prior
  state when a block of the region was already set.
\<close>

theorem allocate_release_bitmap_counterexample:
  "tracker_allocate 0 0 4096
     (SpaceTrackerDetailed [[\<lparr>used = 4096, bitmap = [True]\<rparr>]] [4096]) =
     Inr (8192, SpaceTrackerDetailed [[\<lparr>used = 8192, bitmap = [True]\<rparr>]] [4096]) \<and>
   tracker_release 0 0 4096
     (SpaceTrackerDetailed [[\<lparr>used = 8192, bitmap = [True]\<rparr>]] [4096]) =
     Inr (4096, SpaceTrackerDetailed [[\<lparr>used = 4096, bitmap = [False]\<rparr>]] [4096]) \<and>
   tracker_bitmap (SpaceTrackerDetailed [[\<lparr>used = 4096, bitmap = [False]\<rparr>]] [4096]) 0 =
     Some [False] \<and>
   tracker_bitmap (SpaceTrackerDetailed [[\<lparr>used = 4096, bitmap = [True]\<rparr>]] [4096]) 0 =
     Some [True]"
  by (simp add: with_entry_def sm_at_def sm_put_def device_id_def device_segment_id_def
      DEVICE_SEGMENT_ID_BITS_def allocate_def release_def debug_assert_def and_then_def
      update_usage_def Let_def)

text \<open>
  Claim C7, amended. When \<^verbatim>\<open>allocate\<close> of a region and then \<^verbatim>\<open>release\<close> of the same
  region both return, \<^verbatim>\<open>get_usage\<close> of the segment is what it was before the pair, in
  either tracker; the detailed tracker's bitmap of the segment is what it was before
  exactly when every block of the region was clear before the pair.
\<close>

theorem allocate_release_roundtrip:
  "tracker_allocate segment offset len t = Inr (r1, t1) \<and>
   tracker_release segment offset len t1 = Inr (r2, t2) \<longrightarrow>
     get_usage t2 segment = get_usage t segment \<and>
     (tracker_bitmap t2 segment = tracker_bitmap t segment \<longleftrightarrow>
        (\<forall>bm bs. tracker_bitmap t segment = Some bm \<and> tracker_block_size t segment = Some bs \<longrightarrow>
           (\<forall>i \<in> set (block_range offset len bs). \<not> bm ! i)))"
proof (cases t)
  case (SpaceTrackerSimple lbs)
  then show ?thesis using roundtrip_simple [of segment offset len lbs r1 t1 r2 t2] by auto
next
  case (SpaceTrackerDetailed su bs)
  then show ?thesis using roundtrip_detailed [of segment offset len su bs r1 t1 r2 t2] by auto
qed

theorem allocate_release_roundtrip_witness:
  "tracker_allocate 0 0 4096
     (SpaceTrackerDetailed [[\<lparr>used = 0, bitmap = [False, False]\<rparr>]] [4096]) =
     Inr (4096, SpaceTrackerDetailed [[\<lparr>used = 4096, bitmap = [True, False]\<rparr>]] [4096]) \<and>
   tracker_release 0 0 4096
     (SpaceTrackerDetailed [[\<lparr>used = 4096, bitmap = [True, False]\<rparr>]] [4096]) =
     Inr (0, SpaceTrackerDetailed [[\<lparr>used = 0, bitmap = [False, False]\<rparr>]] [4096]) \<and>
   get_usage (SpaceTrackerDetailed [[\<lparr>used = 0, bitmap = [False, False]\<rparr>]] [4096]) 0 =
   get_usage (SpaceTrackerDetailed [[\<lparr>used = 0, bitmap = [False, False]\<rparr>]] [4096]) 0"
proof -
  let ?t = "SpaceTrackerDetailed [[\<lparr>used = 0, bitmap = [False, False]\<rparr>]] [4096]"
  let ?t1 = "SpaceTrackerDetailed [[\<lparr>used = 4096, bitmap = [True, False]\<rparr>]] [4096]"
  have a: "tracker_allocate 0 0 4096 ?t = Inr (4096, ?t1)"
    by (simp add: with_entry_def sm_at_def sm_put_def device_id_def device_segment_id_def
      DEVICE_SEGMENT_ID_BITS_def allocate_def debug_assert_def and_then_def
      update_usage_def Let_def)
  have b: "tracker_release 0 0 4096 ?t1 = Inr (0, ?t)"
    by (simp add: with_entry_def sm_at_def sm_put_def device_id_def device_segment_id_def
      DEVICE_SEGMENT_ID_BITS_def release_def debug_assert_def and_then_def
      update_usage_def Let_def)
  from a b have "tracker_allocate 0 0 4096 ?t = Inr (4096, ?t1) \<and>
      tracker_release 0 0 4096 ?t1 = Inr (0, ?t)" by (rule conjI)
  note c = mp [OF allocate_release_roundtrip [of 0 0 4096 ?t 4096 ?t1 0 ?t] this]
  from c have "get_usage ?t 0 = get_usage ?t 0" by (rule conjunct1)
  with a b show ?thesis by (intro conjI)
qed

section \<open>Proofs: releasing a segment\<close>

lemma maybe_wake_gc_blocked_io_frame [simp]:
  "segments (maybe_wake_gc_blocked_io h c) = segments c"
  "space_tracker (maybe_wake_gc_blocked_io h c) = space_tracker c"
  by (simp_all add: maybe_wake_gc_blocked_io_def)

lemma mark_empty_after:
  assumes "mark_empty segment s = Inr s'"
  shows "is_empty (seg_at s' segment)"
proof -
  note sh = mark_empty_shape [OF assms]
  have "seg_at s' segment = set_empty (seg_at s segment)"
    using seg_at_seg_put [OF sh(1) sh(1)] dts_cong(2) [OF sh(3)] by simp
  then show ?thesis by (simp add: is_empty_def set_empty_def)
qed

lemma maybe_release_segment_Inr:
  assumes "maybe_release_segment h to_release released c = Inr c'" "to_release \<noteq> NULL_SEG_ID"
  shows "get_usage (space_tracker c) to_release = Inr 0"
    "calc_utilization h c to_release = 0"
    "is_closed (seg_at (segments c) to_release)"
    "is_empty (seg_at (segments c') to_release)"
proof -
  from assms obtain segs buckets where
    u: "calc_utilization h c to_release = 0"
    and m: "mark_empty to_release (segments c) = Inr segs"
    and g: "get_usage (space_tracker c) to_release = Inr 0"
    and c': "c' = maybe_wake_gc_blocked_io h (c\<lparr>segments := segs, segment_util := buckets\<rparr>)"
    by (auto simp: maybe_release_segment_def and_then_def Let_def
        split: if_splits option.splits sum.splits)
  show "get_usage (space_tracker c) to_release = Inr 0" by (rule g)
  show "calc_utilization h c to_release = 0" by (rule u)
  show "is_closed (seg_at (segments c) to_release)" using mark_empty_shape(2) [OF m] .
  show "is_empty (seg_at (segments c') to_release)" using mark_empty_after [OF m] c' by simp
qed

lemma maybe_release_segment_nonzero:
  assumes "to_release \<noteq> NULL_SEG_ID"
  shows "calc_utilization h c to_release \<noteq> 0 \<Longrightarrow>
           maybe_release_segment h to_release None c = Inl (Abort ''old_usage != 0'')"
    "calc_utilization h c to_release = 0 \<Longrightarrow>
     mark_empty to_release (segments c) = Inr segs \<Longrightarrow>
     adjust_segment_util h 0 (calc_utilization h (c\<lparr>segments := segs\<rparr>) to_release)
       (segment_util c) = Inr buckets \<Longrightarrow>
     get_usage (space_tracker c) to_release = Inr u \<Longrightarrow> u \<noteq> 0 \<Longrightarrow>
       maybe_release_segment h to_release None c =
         Inl (Abort ''space_tracker->get_usage(to_release) != 0'')"
    "calc_utilization h c to_release = 0 \<Longrightarrow>
     mark_empty to_release (segments c) = Inr segs \<Longrightarrow>
     adjust_segment_util h 0 (calc_utilization h (c\<lparr>segments := segs\<rparr>) to_release)
       (segment_util c) = Inr buckets \<Longrightarrow>
     get_usage (space_tracker c) to_release = Inr 0 \<Longrightarrow>
       maybe_release_segment h to_release None c =
         Inr (maybe_wake_gc_blocked_io h (c\<lparr>segments := segs, segment_util := buckets\<rparr>))"
  using assms
  by (simp_all add: maybe_release_segment_def and_then_def Let_def)

text \<open>
  Claim C4. \<^verbatim>\<open>maybe_release_segment\<close> is the only caller of \<^verbatim>\<open>mark_empty\<close>. When it
  returns for a segment to release, the space tracker reported 0 live bytes for the
  segment before the call, the segment was CLOSED and is now EMPTY. A nonzero
  utilization before the transition, or a nonzero usage after it, ends in
  \<^verbatim>\<open>ceph_abort\<close>; and when the usage is 0 and \<^verbatim>\<open>mark_empty\<close> and the histogram update
  return, neither abort is taken and the call returns.
\<close>

theorem release_requires_zero_usage:
  "(to_release \<noteq> NULL_SEG_ID \<and> maybe_release_segment h to_release released c = Inr c' \<longrightarrow>
      get_usage (space_tracker c) to_release = Inr 0 \<and>
      is_closed (seg_at (segments c) to_release) \<and>
      is_empty (seg_at (segments c') to_release)) \<and>
   (to_release \<noteq> NULL_SEG_ID \<and> calc_utilization h c to_release \<noteq> 0 \<longrightarrow>
      maybe_release_segment h to_release None c = Inl (Abort ''old_usage != 0'')) \<and>
   (to_release \<noteq> NULL_SEG_ID \<and> calc_utilization h c to_release = 0 \<and>
    mark_empty to_release (segments c) = Inr segs \<and>
    adjust_segment_util h 0 (calc_utilization h (c\<lparr>segments := segs\<rparr>) to_release)
      (segment_util c) = Inr buckets \<and>
    get_usage (space_tracker c) to_release = Inr u \<longrightarrow>
      maybe_release_segment h to_release None c =
        (if u \<noteq> 0 then Inl (Abort ''space_tracker->get_usage(to_release) != 0'')
         else Inr (maybe_wake_gc_blocked_io h (c\<lparr>segments := segs, segment_util := buckets\<rparr>))))"
proof (intro conjI)
  show "to_release \<noteq> NULL_SEG_ID \<and> maybe_release_segment h to_release released c = Inr c' \<longrightarrow>
      get_usage (space_tracker c) to_release = Inr 0 \<and>
      is_closed (seg_at (segments c) to_release) \<and>
      is_empty (seg_at (segments c') to_release)"
    using maybe_release_segment_Inr [of h to_release released c c'] by simp
next
  show "to_release \<noteq> NULL_SEG_ID \<and> calc_utilization h c to_release \<noteq> 0 \<longrightarrow>
      maybe_release_segment h to_release None c = Inl (Abort ''old_usage != 0'')"
    using maybe_release_segment_nonzero(1) [of to_release h c] by simp
next
  show "to_release \<noteq> NULL_SEG_ID \<and> calc_utilization h c to_release = 0 \<and>
    mark_empty to_release (segments c) = Inr segs \<and>
    adjust_segment_util h 0 (calc_utilization h (c\<lparr>segments := segs\<rparr>) to_release)
      (segment_util c) = Inr buckets \<and>
    get_usage (space_tracker c) to_release = Inr u \<longrightarrow>
      maybe_release_segment h to_release None c =
        (if u \<noteq> 0 then Inl (Abort ''space_tracker->get_usage(to_release) != 0'')
         else Inr (maybe_wake_gc_blocked_io h (c\<lparr>segments := segs, segment_util := buckets\<rparr>)))"
    using maybe_release_segment_nonzero(2) [of to_release h c segs buckets u]
      maybe_release_segment_nonzero(3) [of to_release h c segs buckets]
    by auto
qed

text \<open>
  Segment 1 of the example was found closed at mount and holds no live bytes: its
  release returns. With 512 live bytes in it the release aborts.
\<close>

theorem release_requires_zero_usage_witness:
  "\<exists>c c'. c = example_cleaner\<lparr>segments :=
                projr (init_closed (\<lambda>_. True) 1 5 OOL DATA 0 example_segments)\<rparr> \<and>
     maybe_release_segment example_header 1 None c = Inr c' \<and>
     get_usage (space_tracker c) 1 = Inr 0 \<and>
     is_closed (seg_at (segments c) 1) \<and>
     is_empty (seg_at (segments c') 1) \<and>
     maybe_release_segment example_header 1 None
       (c\<lparr>space_tracker := SpaceTrackerSimple [[0, 512, 0, 0]]\<rparr>) =
       Inl (Abort ''old_usage != 0'')"
proof -
  define c where "c = example_cleaner\<lparr>segments :=
                projr (init_closed (\<lambda>_. True) 1 5 OOL DATA 0 example_segments)\<rparr>"
  define c' where "c' = projr (maybe_release_segment example_header 1 None c)"
  note ex_defs = example_cleaner_def example_segments_def example_header_def
    maybe_release_segment_def maybe_wake_gc_blocked_io_def with_entry_def sm_at_def
  have n: "(1 :: segment_id_t) \<noteq> NULL_SEG_ID"
    by (simp add: eval_defs)
  have r: "maybe_release_segment example_header 1 None c = Inr c'"
    unfolding c'_def c_def by (simp add: ex_defs eval_defs)
  have u: "calc_utilization example_header
             (c\<lparr>space_tracker := SpaceTrackerSimple [[0, 512, 0, 0]]\<rparr>) 1 \<noteq> 0"
    unfolding c_def by (simp add: ex_defs eval_defs)
  from release_requires_zero_usage [of 1 example_header None c c'] n r
  have 1: "get_usage (space_tracker c) 1 = Inr 0 \<and> is_closed (seg_at (segments c) 1) \<and>
      is_empty (seg_at (segments c') 1)" by blast
  from release_requires_zero_usage
    [of 1 example_header _ "c\<lparr>space_tracker := SpaceTrackerSimple [[0, 512, 0, 0]]\<rparr>"] n u
  have 2: "maybe_release_segment example_header 1 None
       (c\<lparr>space_tracker := SpaceTrackerSimple [[0, 512, 0, 0]]\<rparr>) =
       Inl (Abort ''old_usage != 0'')" by blast
  show ?thesis
    using c_def r 1 2 by blast
qed

section \<open>Proofs: mark\_space\_used and mark\_space\_free\<close>

lemma mark_space_used_skip:
  "get_addr_type addr \<noteq> SEGMENT \<or> (\<not> init_scan \<and> \<not> init_complete c) \<Longrightarrow>
   mark_space_used h addr len init_scan c = Inr c"
  by (auto simp: mark_space_used_def as_seg_paddr_def debug_assert_def)

lemma mark_space_free_skip:
  "get_addr_type addr \<noteq> SEGMENT \<or> (\<not> init_scan \<and> \<not> init_complete c) \<Longrightarrow>
   mark_space_free h addr len init_scan c = Inr c"
  by (auto simp: mark_space_free_def)

text \<open>
  Claim C10. \<^verbatim>\<open>mark_space_used\<close> and \<^verbatim>\<open>mark_space_free\<close> return with the cleaner
  unchanged when the address is not a segment address, and when initialization is not
  complete and the call is not part of the initial scan. A call that fails or changes
  the state was made on a segment address, after \<^verbatim>\<open>complete_init\<close> or with
  \<^verbatim>\<open>init_scan\<close>.
\<close>

theorem mark_space_frame:
  "(get_addr_type addr \<noteq> SEGMENT \<or> (\<not> init_scan \<and> \<not> init_complete c) \<longrightarrow>
      mark_space_used h addr len init_scan c = Inr c \<and>
      mark_space_free h addr len init_scan c = Inr c) \<and>
   (mark_space_used h addr len init_scan c \<noteq> Inr c \<or>
    mark_space_free h addr len init_scan c \<noteq> Inr c \<longrightarrow>
      get_addr_type addr = SEGMENT \<and> (init_scan \<or> init_complete c))"
  using mark_space_used_skip [of addr init_scan c h len]
    mark_space_free_skip [of addr init_scan c h len]
  by auto

text \<open>
  In the example, 512 bytes at offset 0 of segment 1: before \<^verbatim>\<open>complete_init\<close> and
  without \<^verbatim>\<open>init_scan\<close> nothing changes, and neither for an address of a random
  block device (device id 128); after \<^verbatim>\<open>complete_init\<close> the call changes the state.
\<close>

theorem mark_space_frame_witness:
  "mark_space_used example_header (make_seg_paddr 1 0) 512 False
     (example_cleaner\<lparr>init_complete := False\<rparr>) = Inr (example_cleaner\<lparr>init_complete := False\<rparr>) \<and>
   mark_space_free example_header (make_seg_paddr 1 0) 512 False
     (example_cleaner\<lparr>init_complete := False\<rparr>) = Inr (example_cleaner\<lparr>init_complete := False\<rparr>) \<and>
   get_addr_type (push_bit 56 128) = RANDOM_BLOCK \<and>
   mark_space_used example_header (push_bit 56 128) 512 True example_cleaner = Inr example_cleaner \<and>
   mark_space_free example_header (push_bit 56 128) 512 True example_cleaner = Inr example_cleaner \<and>
   mark_space_used example_header (make_seg_paddr 1 0) 512 False example_cleaner =
     Inr (example_cleaner\<lparr>used_bytes := 512,
            space_tracker := SpaceTrackerSimple [[0, 512, 0, 0]]\<rparr>) \<and>
   get_addr_type (make_seg_paddr 1 0) = SEGMENT \<and> init_complete example_cleaner"
proof -
  let ?c0 = "example_cleaner\<lparr>init_complete := False\<rparr>"
  have i: "\<not> init_complete ?c0" by simp
  have t: "get_addr_type (push_bit 56 128) = RANDOM_BLOCK"
    by (simp add: get_addr_type_def get_device_id_def device_id_to_paddr_type_def
        DEVICE_ID_MAX_VALID_def)
  have u: "mark_space_used example_header (make_seg_paddr 1 0) 512 False example_cleaner =
     Inr (example_cleaner\<lparr>used_bytes := 512,
            space_tracker := SpaceTrackerSimple [[0, 512, 0, 0]]\<rparr>)"
    by (simp add: mark_space_used_def example_header_def example_cleaner_def
        maybe_wake_on_space_used_def simple_update_usage_def with_entry_def sm_at_def sm_put_def
        word_sle_eq word_sless_alt eval_defs)
  have ne: "mark_space_used example_header (make_seg_paddr 1 0) 512 False example_cleaner \<noteq>
     Inr example_cleaner"
    unfolding u by (simp add: example_cleaner_def)
  from mark_space_frame [of "make_seg_paddr 1 0" False ?c0 example_header 512] i
  have 1: "mark_space_used example_header (make_seg_paddr 1 0) 512 False ?c0 = Inr ?c0 \<and>
      mark_space_free example_header (make_seg_paddr 1 0) 512 False ?c0 = Inr ?c0" by blast
  from mark_space_frame [of "push_bit 56 128" True example_cleaner example_header 512] t
  have 2: "mark_space_used example_header (push_bit 56 128) 512 True example_cleaner = Inr example_cleaner \<and>
      mark_space_free example_header (push_bit 56 128) 512 True example_cleaner = Inr example_cleaner"
    by simp
  from mark_space_frame [of "make_seg_paddr 1 0" False example_cleaner example_header 512] ne
  have 3: "get_addr_type (make_seg_paddr 1 0) = SEGMENT \<and> init_complete example_cleaner"
    by blast
  show ?thesis using 1 2 3 t u by simp
qed

section \<open>Proofs: reserve\_projected\_usage\<close>







section \<open>Proofs: mount\<close>

lemma mount_segment_missing:
  assumes "read_segment_header dev segment_id = Inl enoent \<or>
           read_segment_header dev segment_id = Inl enodata"
  shows "mount_segment h dev segment_id c = Inr c"
  using assms by (auto simp: mount_segment_def mount_handle_error_def)

lemma mount_segments_append:
  "mount_segments h dev (ps1 @ ps2) c =
   and_then (mount_segments h dev ps1 c) (mount_segments h dev ps2)"
  by (induction ps1 arbitrary: c) (auto simp: and_then_def split: sum.splits)

lemma mount_segments_skip:
  assumes "iterator_segment_id p = Inr segment_id" "mount_segment h dev segment_id c = Inr c"
  shows "mount_segments h dev (p # ps) c = mount_segments h dev ps c"
  using assms by (simp add: and_then_def)

text \<open>
  Claim C9. When the header read of a segment ends with \<^verbatim>\<open>enoent\<close> or \<^verbatim>\<open>enodata\<close>,
  the loop body of \<^verbatim>\<open>mount\<close> for that segment returns without an error and leaves
  the cleaner as it was, and the loop goes on as if the segment were not in the list:
  at whatever place of the iteration the segment comes, the mount has the outcome
  that it has without it.
\<close>

theorem mount_missing_segment:
  "(read_segment_header dev segment_id = Inl enoent \<or>
    read_segment_header dev segment_id = Inl enodata) \<longrightarrow>
   mount_segment h dev segment_id c = Inr c \<and>
   (iterator_segment_id p = Inr segment_id \<longrightarrow>
      mount_segments h dev (ps1 @ p # ps2) c = mount_segments h dev (ps1 @ ps2) c)"
proof (intro impI conjI)
  assume a: "read_segment_header dev segment_id = Inl enoent \<or>
    read_segment_header dev segment_id = Inl enodata"
  show "mount_segment h dev segment_id c = Inr c"
    using a by (rule mount_segment_missing)
  assume p: "iterator_segment_id p = Inr segment_id"
  have "mount_segments h dev (p # ps2) c' = mount_segments h dev ps2 c'" for c'
    using mount_segments_skip [OF p mount_segment_missing [OF a]] .
  then have "mount_segments h dev (p # ps2) = mount_segments h dev ps2"
    by (rule ext)
  then show "mount_segments h dev (ps1 @ p # ps2) c = mount_segments h dev (ps1 @ ps2) c"
    by (simp only: mount_segments_append)
qed

text \<open>
  In the example the mount of the segments 0, 1 and 2 goes past the missing segment 1,
  and ends with segment 0 CLOSED and segment 1 still EMPTY.
\<close>

theorem mount_missing_segment_witness:
  "mount_segment example_header example_devices 1 (example_cleaner\<lparr>init_complete := False\<rparr>) =
     Inr (example_cleaner\<lparr>init_complete := False\<rparr>) \<and>
   mount_segments example_header example_devices ([(0, 0)] @ (0, 1) # [(0, 2)])
     (example_cleaner\<lparr>init_complete := False\<rparr>) =
   mount_segments example_header example_devices ([(0, 0)] @ [(0, 2)])
     (example_cleaner\<lparr>init_complete := False\<rparr>) \<and>
   (\<exists>c'. mount_segments example_header example_devices [(0, 0), (0, 1), (0, 2)]
            (example_cleaner\<lparr>init_complete := False\<rparr>) = Inr c' \<and>
         is_closed (seg_at (segments c') 0) \<and> is_empty (seg_at (segments c') 1))"
proof -
  let ?c = "example_cleaner\<lparr>init_complete := False\<rparr>"
  note m_defs = mount_segment_def mount_segment_tail_def mount_handle_error_def
    scan_no_tail_segment_def init_mark_segment_closed_def keep_state_def
    iterator_segment_id_def position_id_def update_modify_time_def get_average_time_def
    example_devices_def example_header_def example_cleaner_def example_segments_def
  have e: "read_segment_header example_devices 1 = Inl enoent \<or>
           read_segment_header example_devices 1 = Inl enodata"
    by (simp add: example_devices_def)
  have i: "iterator_segment_id (0, 1) = Inr 1"
    by (simp add: iterator_segment_id_def position_id_def eval_defs)
  note t = mp [OF mount_missing_segment [of example_devices 1 example_header ?c "(0, 1)"
                  "[(0, 0)]" "[(0, 2)]"] e]
  from t have 1: "mount_segment example_header example_devices 1 ?c = Inr ?c"
    by (rule conjunct1)
  from t i have 2: "mount_segments example_header example_devices ([(0, 0)] @ (0, 1) # [(0, 2)]) ?c =
      mount_segments example_header example_devices ([(0, 0)] @ [(0, 2)]) ?c"
    by blast
  define c' where "c' = projr (mount_segments example_header example_devices [(0, 0), (0, 2)] ?c)"
  have 3: "mount_segments example_header example_devices [(0, 0), (0, 2)] ?c = Inr c'"
    unfolding c'_def by (simp add: m_defs eval_defs)
  have 4: "is_closed (seg_at (segments c') 0) \<and> is_empty (seg_at (segments c') 1)"
    unfolding c'_def by (simp add: m_defs eval_defs)
  from 2 3 have "mount_segments example_header example_devices [(0, 0), (0, 1), (0, 2)] ?c = Inr c'"
    by simp
  with 1 2 4 show ?thesis by blast
qed

section \<open>Proofs: the cost-benefit score\<close>

lemma calc_gc_benefit_cost_cases:
  fixes fp h c seg_id now_time bound_time
  defines "u \<equiv> calc_utilization h c seg_id"
    and "age_segment \<equiv> int64_to_double fp (modify_time (seg_at (segments c) seg_id))"
    and "age_now \<equiv> int64_to_double fp now_time"
  shows "\<not> (0 \<le> u \<and> u < 1) \<Longrightarrow>
           calc_gc_benefit_cost fp h c seg_id now_time bound_time =
             Inl (Abort ''util >= 0 && util < 1'')"
    and "u = 0 \<Longrightarrow> calc_gc_benefit_cost fp h c seg_id now_time bound_time = Inr DBL_MAX"
    and "0 < u \<Longrightarrow> u < 1 \<Longrightarrow> contains (segments c) seg_id \<Longrightarrow> age_now > age_segment \<Longrightarrow>
           calc_gc_benefit_cost fp h c seg_id now_time bound_time =
             Inr (d_div fp (d_mul fp (d_sub fp 1 u) (d_sub fp age_now age_segment))
                    (d_mul fp 2 u))"
    and "0 < u \<Longrightarrow> u < 1 \<Longrightarrow> contains (segments c) seg_id \<Longrightarrow> \<not> age_now > age_segment \<Longrightarrow>
           calc_gc_benefit_cost fp h c seg_id now_time bound_time =
             Inr (d_div fp (d_sub fp 1 u) (d_mul fp 2 u))"
  unfolding u_def age_segment_def age_now_def
  by (auto simp: calc_gc_benefit_cost_def ceph_assert_def debug_assert_def with_segment_def
      contains_def Let_def)

lemma exact_arith_simps:
  "int64_to_double exact_arith t = real_of_int (sint t)"
  "d_sub exact_arith a b = a - b" "d_mul exact_arith a b = a * b" "d_div exact_arith a b = a / b"
  by (simp_all add: exact_arith_def)

lemma example_arith_simps:
  "int64_to_double example_arith t = real_of_int (round_to_double (sint t))"
  "d_sub example_arith a b = a - b" "d_mul example_arith a b = a * b"
  "d_div example_arith a b = a / b"
  by (simp_all add: example_arith_def exact_arith_def)

lemma calc_gc_benefit_cost_exact:
  assumes "0 < calc_utilization h c seg_id" "calc_utilization h c seg_id < 1"
    "contains (segments c) seg_id"
  shows "spec_cost_benefit_score (calc_utilization h c seg_id) (sint now_time)
           (sint (modify_time (seg_at (segments c) seg_id))) =
         Some (projr (calc_gc_benefit_cost exact_arith h c seg_id now_time bound_time)) \<and>
         calc_gc_benefit_cost exact_arith h c seg_id now_time bound_time =
         Inr (projr (calc_gc_benefit_cost exact_arith h c seg_id now_time bound_time))"
  using assms
  by (auto simp: calc_gc_benefit_cost_def ceph_assert_def debug_assert_def with_segment_def
      contains_def Let_def exact_arith_simps spec_cost_benefit_score_def
      simp del: of_int_sint)

lemma significand_shift_numeral:
  "significand_shift (numeral k) a =
     (if a < 2 ^ 53 then 0 else Suc (significand_shift (pred_numeral k) (a div 2)))"
  by (simp add: numeral_eq_Suc)

lemma significand_shift_examples:
  "significand_shift 11 0 = 0" "significand_shift 11 5 = 0" "significand_shift 11 6 = 0" "significand_shift 11 14 = 0"
  "significand_shift 11 20 = 0"
  "significand_shift 11 18014398509481984 = 2" "significand_shift 11 18014398509481986 = 2"
  by (simp_all add: significand_shift_numeral)

lemma round_to_double_examples:
  "round_to_double 0 = 0" "round_to_double 5 = 5" "round_to_double 6 = 6" "round_to_double 14 = 14"
  "round_to_double 20 = 20"
  "round_to_double 18014398509481984 = 18014398509481984"
  "round_to_double 18014398509481986 = 18014398509481984"
  by (simp_all add: round_to_double_def Let_def significand_shift_examples)

lemmas x_defs = example_late_cleaner_def example_closed_cleaner_def example_header_def
  example_cleaner_def example_segments_def

text \<open>
  In the example state segment 1 is CLOSED. With no live bytes its score at the tick 20
  is the finite \<^verbatim>\<open>std::numeric_limits<double>::max()\<close>, where the claim has
  \<open>+\<infinity>\<close>. Half full and last modified at the tick \<open>2\<^sup>5\<^sup>4\<close>, its score at the later
  tick \<open>2\<^sup>5\<^sup>4 + 2\<close> is the fallback value \<open>1/2\<close>, where the claim has
  \<open>(1 - u) * (now - m) / (2u) = 1\<close>: the two ticks are the same double.
\<close>

theorem cost_benefit_score_counterexample:
  "is_closed (seg_at (segments example_closed_cleaner) 1) \<and>
   calc_utilization example_header
     (example_closed_cleaner\<lparr>space_tracker := SpaceTrackerSimple [[0, 0, 0, 0]]\<rparr>) 1 = 0 \<and>
   calc_gc_benefit_cost example_arith example_header
     (example_closed_cleaner\<lparr>space_tracker := SpaceTrackerSimple [[0, 0, 0, 0]]\<rparr>) 1 20 NULL_TIME =
     Inr DBL_MAX \<and>
   spec_cost_benefit_score 0 20 14 = None \<and>
   is_closed (seg_at (segments example_late_cleaner) 1) \<and>
   calc_utilization example_header example_late_cleaner 1 = 1 / 2 \<and>
   modify_time (seg_at (segments example_late_cleaner) 1) = 18014398509481984 \<and>
   sint (18014398509481984 :: sea_time_point) < sint (18014398509481986 :: sea_time_point) \<and>
   calc_gc_benefit_cost example_arith example_header example_late_cleaner 1
     18014398509481986 NULL_TIME = Inr (1 / 2) \<and>
   spec_cost_benefit_score (1 / 2) 18014398509481986 18014398509481984 = Some 1"
proof -
  have 1: "is_closed (seg_at (segments example_closed_cleaner) 1)"
    by (simp add: x_defs eval_defs seg_at_def)
  have 2: "calc_utilization example_header
     (example_closed_cleaner\<lparr>space_tracker := SpaceTrackerSimple [[0, 0, 0, 0]]\<rparr>) 1 = 0"
    by (simp add: x_defs eval_defs with_entry_def sm_contains_def sm_at_def)
  have 3: "calc_gc_benefit_cost example_arith example_header
     (example_closed_cleaner\<lparr>space_tracker := SpaceTrackerSimple [[0, 0, 0, 0]]\<rparr>) 1 20 NULL_TIME =
     Inr DBL_MAX"
    using 2 by (simp add: calc_gc_benefit_cost_def ceph_assert_def)
  have 4: "spec_cost_benefit_score 0 20 14 = None"
    by (simp add: spec_cost_benefit_score_def)
  have 5: "is_closed (seg_at (segments example_late_cleaner) 1)"
    "modify_time (seg_at (segments example_late_cleaner) 1) = 18014398509481984"
    "contains (segments example_late_cleaner) 1"
    by (simp_all add: x_defs eval_defs seg_at_def seg_put_def contains_def)
  have 6: "calc_utilization example_header example_late_cleaner 1 = 1 / 2"
    by (simp add: x_defs eval_defs with_entry_def sm_contains_def sm_at_def)
  have 7: "sint (18014398509481984 :: sea_time_point) < sint (18014398509481986 :: sea_time_point)"
    by simp
  have 8: "calc_gc_benefit_cost example_arith example_header example_late_cleaner 1
     18014398509481986 NULL_TIME = Inr (1 / 2)"
    using 5 6
    by (simp add: calc_gc_benefit_cost_def ceph_assert_def debug_assert_def with_segment_def
        contains_def Let_def example_arith_simps round_to_double_examples)
  have 9: "spec_cost_benefit_score (1 / 2) 18014398509481986 18014398509481984 = Some 1"
    by (simp add: spec_cost_benefit_score_def)
  from 1 2 3 4 5 6 7 8 9 show ?thesis by simp
qed

text \<open>
  Claim C2. The utilization \<open>u\<close> of the segment is asserted to satisfy
  \<open>0 \<le> u < 1\<close>. With \<open>u = 0\<close> the score is \<^verbatim>\<open>std::numeric_limits<double>::max()\<close>, the
  largest finite double. Otherwise the tick counts of \<^verbatim>\<open>now_time\<close> and of the segment's
  modify time are converted to \<^verbatim>\<open>double\<close>: if the converted \<open>now\<close> is greater than the
  converted \<open>m\<close>, the score is \<open>(1 - u) * (now - m) / (2 * u)\<close>, each operation rounded,
  and if not it is the rounded \<open>(1 - u) / (2 * u)\<close>. Where the conversion and the
  operations are exact, the score is the real number that the specification gives.
\<close>

theorem calc_gc_benefit_cost_score:
  "(\<not> (0 \<le> calc_utilization h c seg_id \<and> calc_utilization h c seg_id < 1) \<longrightarrow>
      calc_gc_benefit_cost fp h c seg_id now_time bound_time =
        Inl (Abort ''util >= 0 && util < 1'')) \<and>
   (calc_utilization h c seg_id = 0 \<longrightarrow>
      calc_gc_benefit_cost fp h c seg_id now_time bound_time = Inr DBL_MAX) \<and>
   (0 < calc_utilization h c seg_id \<and> calc_utilization h c seg_id < 1 \<and>
    contains (segments c) seg_id \<and>
    int64_to_double fp (modify_time (seg_at (segments c) seg_id)) < int64_to_double fp now_time \<longrightarrow>
      calc_gc_benefit_cost fp h c seg_id now_time bound_time =
        Inr (d_div fp
               (d_mul fp (d_sub fp 1 (calc_utilization h c seg_id))
                  (d_sub fp (int64_to_double fp now_time)
                     (int64_to_double fp (modify_time (seg_at (segments c) seg_id)))))
               (d_mul fp 2 (calc_utilization h c seg_id)))) \<and>
   (0 < calc_utilization h c seg_id \<and> calc_utilization h c seg_id < 1 \<and>
    contains (segments c) seg_id \<and>
    \<not> int64_to_double fp (modify_time (seg_at (segments c) seg_id)) < int64_to_double fp now_time \<longrightarrow>
      calc_gc_benefit_cost fp h c seg_id now_time bound_time =
        Inr (d_div fp (d_sub fp 1 (calc_utilization h c seg_id))
               (d_mul fp 2 (calc_utilization h c seg_id)))) \<and>
   (0 < calc_utilization h c seg_id \<and> calc_utilization h c seg_id < 1 \<and>
    contains (segments c) seg_id \<longrightarrow>
      (\<exists>x. calc_gc_benefit_cost exact_arith h c seg_id now_time bound_time = Inr x \<and>
           spec_cost_benefit_score (calc_utilization h c seg_id) (sint now_time)
             (sint (modify_time (seg_at (segments c) seg_id))) = Some x))"
proof (intro conjI)
  show "\<not> (0 \<le> calc_utilization h c seg_id \<and> calc_utilization h c seg_id < 1) \<longrightarrow>
      calc_gc_benefit_cost fp h c seg_id now_time bound_time =
        Inl (Abort ''util >= 0 && util < 1'')"
    using calc_gc_benefit_cost_cases(1) [of h c seg_id fp now_time bound_time] by blast
  show "calc_utilization h c seg_id = 0 \<longrightarrow>
      calc_gc_benefit_cost fp h c seg_id now_time bound_time = Inr DBL_MAX"
    using calc_gc_benefit_cost_cases(2) [of h c seg_id fp now_time bound_time] by blast
  show "0 < calc_utilization h c seg_id \<and> calc_utilization h c seg_id < 1 \<and>
    contains (segments c) seg_id \<and>
    int64_to_double fp (modify_time (seg_at (segments c) seg_id)) < int64_to_double fp now_time \<longrightarrow>
      calc_gc_benefit_cost fp h c seg_id now_time bound_time =
        Inr (d_div fp
               (d_mul fp (d_sub fp 1 (calc_utilization h c seg_id))
                  (d_sub fp (int64_to_double fp now_time)
                     (int64_to_double fp (modify_time (seg_at (segments c) seg_id)))))
               (d_mul fp 2 (calc_utilization h c seg_id)))"
    using calc_gc_benefit_cost_cases(3) [of h c seg_id fp now_time bound_time] by blast
  show "0 < calc_utilization h c seg_id \<and> calc_utilization h c seg_id < 1 \<and>
    contains (segments c) seg_id \<and>
    \<not> int64_to_double fp (modify_time (seg_at (segments c) seg_id)) < int64_to_double fp now_time \<longrightarrow>
      calc_gc_benefit_cost fp h c seg_id now_time bound_time =
        Inr (d_div fp (d_sub fp 1 (calc_utilization h c seg_id))
               (d_mul fp 2 (calc_utilization h c seg_id)))"
    using calc_gc_benefit_cost_cases(4) [of h c seg_id fp now_time bound_time] by blast
  show "0 < calc_utilization h c seg_id \<and> calc_utilization h c seg_id < 1 \<and>
    contains (segments c) seg_id \<longrightarrow>
      (\<exists>x. calc_gc_benefit_cost exact_arith h c seg_id now_time bound_time = Inr x \<and>
           spec_cost_benefit_score (calc_utilization h c seg_id) (sint now_time)
             (sint (modify_time (seg_at (segments c) seg_id))) = Some x)"
    using calc_gc_benefit_cost_exact [of h c seg_id now_time bound_time] by blast
qed

text \<open>
  Segment 2 of the example state is half full and was last modified at the tick 6: at
  the tick 20 its score is \<open>(1/2) * 14 / 1 = 7\<close>, and at the tick 5 it is \<open>1/2\<close>. With
  no live bytes the score is the largest double, and for a segment that is full the
  assertion fails.
\<close>

theorem calc_gc_benefit_cost_score_witness:
  "calc_utilization example_header example_closed_cleaner 2 = 1 / 2 \<and>
   contains (segments example_closed_cleaner) 2 \<and>
   modify_time (seg_at (segments example_closed_cleaner) 2) = 6 \<and>
   calc_gc_benefit_cost example_arith example_header example_closed_cleaner 2 20 NULL_TIME = Inr 7 \<and>
   calc_gc_benefit_cost example_arith example_header example_closed_cleaner 2 5 NULL_TIME =
     Inr (1 / 2) \<and>
   calc_gc_benefit_cost exact_arith example_header example_closed_cleaner 2 20 NULL_TIME = Inr 7 \<and>
   spec_cost_benefit_score (1 / 2) 20 6 = Some 7 \<and>
   calc_gc_benefit_cost example_arith example_header
     (example_closed_cleaner\<lparr>space_tracker := SpaceTrackerSimple [[0, 0, 0, 0]]\<rparr>) 2 20 NULL_TIME =
     Inr DBL_MAX \<and>
   calc_gc_benefit_cost example_arith example_header
     (example_closed_cleaner\<lparr>space_tracker := SpaceTrackerSimple [[0, 0, 4096, 0]]\<rparr>) 2 20 NULL_TIME =
     Inl (Abort ''util >= 0 && util < 1'')"
proof -
  let ?c = example_closed_cleaner and ?h = example_header
  let ?cz = "example_closed_cleaner\<lparr>space_tracker := SpaceTrackerSimple [[0, 0, 0, 0]]\<rparr>"
  let ?cf = "example_closed_cleaner\<lparr>space_tracker := SpaceTrackerSimple [[0, 0, 4096, 0]]\<rparr>"
  have u: "calc_utilization ?h ?c 2 = 1 / 2"
    by (simp add: x_defs eval_defs with_entry_def sm_contains_def sm_at_def)
  have u0: "calc_utilization ?h ?cz 2 = 0"
    by (simp add: x_defs eval_defs with_entry_def sm_contains_def sm_at_def)
  have u1: "calc_utilization ?h ?cf 2 = 1"
    by (simp add: x_defs eval_defs with_entry_def sm_contains_def sm_at_def)
  have s: "contains (segments ?c) 2" "modify_time (seg_at (segments ?c) 2) = 6"
    by (simp_all add: x_defs eval_defs seg_at_def contains_def)
  have a: "calc_gc_benefit_cost example_arith ?h ?c 2 20 NULL_TIME = Inr 7"
    using calc_gc_benefit_cost_score [of ?h ?c 2 example_arith 20 NULL_TIME] u s
    by (simp add: example_arith_simps round_to_double_examples)
  have b: "calc_gc_benefit_cost example_arith ?h ?c 2 5 NULL_TIME = Inr (1 / 2)"
    using calc_gc_benefit_cost_score [of ?h ?c 2 example_arith 5 NULL_TIME] u s
    by (simp add: example_arith_simps round_to_double_examples)
  have "\<exists>x. calc_gc_benefit_cost exact_arith ?h ?c 2 20 NULL_TIME = Inr x \<and>
      spec_cost_benefit_score (1 / 2) (sint (20 :: sea_time_point)) (sint (6 :: sea_time_point)) =
        Some x"
    using calc_gc_benefit_cost_score [of ?h ?c 2 exact_arith 20 NULL_TIME] u s by simp
  moreover have sp: "spec_cost_benefit_score (1 / 2) 20 6 = Some 7"
    by (simp add: spec_cost_benefit_score_def)
  ultimately have e: "calc_gc_benefit_cost exact_arith ?h ?c 2 20 NULL_TIME = Inr 7"
    by auto
  have z: "calc_gc_benefit_cost example_arith ?h ?cz 2 20 NULL_TIME = Inr DBL_MAX"
    using calc_gc_benefit_cost_score [of ?h ?cz 2 example_arith 20 NULL_TIME] u0 by simp
  have f: "calc_gc_benefit_cost example_arith ?h ?cf 2 20 NULL_TIME =
      Inl (Abort ''util >= 0 && util < 1'')"
    using calc_gc_benefit_cost_score [of ?h ?cf 2 example_arith 20 NULL_TIME] u1 by simp
  from u s a b e sp z f show ?thesis by simp
qed

section \<open>Proofs: victim selection\<close>




subsection \<open>A candidate with the id NULL\_SEG\_ID\<close>














end
